theory Spec2Isabelle
  imports Main "HOL-Library.Multiset" "HOL-Library.Product_Lexorder"
begin

section \<open>The route table\<close>

text \<open>
  The program (scripts/main.py, class RouteAnalyzer) works on one pandas data frame; a
  row of it is a route. The record below has the columns the program reads or writes.
  Two kinds of cells change their type in \<open>prepare_data\<close>, so the record is polymorphic
  in them: the cell of \<open>route_min_date\<close> (a text before, a calendar date or NaT after)
  and the cells of the four counter columns text_route_number_count, route_month,
  route_year and teu (whatever the table holds before, Int64 after). A fetched row is a
  \<open>(string, 'n) route\<close>; a prepared row is a \<open>prepared_route\<close>, where a date is a day
  number and \<open>None\<close> is NaT, and a counter is an integer and \<open>None\<close> is the missing
  value of Int64. The other text cells are taken to hold strings (no null cells); a
  string is its UTF-8 bytes.

  \<open>category_route\<close> holds one of two texts in the source: New_route stands for
  'Novyi marshrut' (new route), Route_change for 'Izmenenie v marshrute' (change in the
  route).
\<close>

datatype category = New_route | Route_change

record ('d, 'n) route =
  text_route_number :: string
  text_route_number_count :: 'n
  route_month :: 'n
  route_year :: 'n
  teu :: 'n
  type_of_transportation :: string
  route_min_date :: 'd
  departure_station_code_of_rf :: string
  destination_station_code_of_rf :: string
  payer_of_the_railway_tariff_unified :: string
  shipper_okpo :: string
  consignee_okpo :: string
  departure_station_of_the_rf :: string
  rf_destination_station :: string
  shipper_by_puzt :: string
  consignee_by_puzt :: string
  category_route :: category
  old_text_route_number :: "string option"
  changed_field :: "string option"
  old_value_field :: "string option"

type_synonym prepared_route = "(int option, int option) route"

text \<open>The exceptions of the model.\<close>

datatype error = ValueError | TypeError | OverflowError | IndexError

text \<open>\<open>MIN_MATCHING_KEY_THRESHOLD\<close> of scripts/__init__.py.\<close>

definition MIN_MATCHING_KEY_THRESHOLD :: nat where
  "MIN_MATCHING_KEY_THRESHOLD = 3"

text \<open>\<open>self.key_columns\<close>: the five identifying columns, in the order of the source.\<close>

datatype key_column =
  Departure_code | Destination_code | Payer | Shipper_okpo | Consignee_okpo

definition key_columns :: "key_column list" where
  "key_columns = [Departure_code, Destination_code, Payer, Shipper_okpo, Consignee_okpo]"

fun column_name :: "key_column \<Rightarrow> string" where
  "column_name Departure_code = ''departure_station_code_of_rf''"
| "column_name Destination_code = ''destination_station_code_of_rf''"
| "column_name Payer = ''payer_of_the_railway_tariff_unified''"
| "column_name Shipper_okpo = ''shipper_okpo''"
| "column_name Consignee_okpo = ''consignee_okpo''"

text \<open>\<open>row[column]\<close> for a key column.\<close>

fun key_value :: "key_column \<Rightarrow> ('d, 'n) route \<Rightarrow> string" where
  "key_value Departure_code r = departure_station_code_of_rf r"
| "key_value Destination_code r = destination_station_code_of_rf r"
| "key_value Payer r = payer_of_the_railway_tariff_unified r"
| "key_value Shipper_okpo r = shipper_okpo r"
| "key_value Consignee_okpo r = consignee_okpo r"

text \<open>
  \<open>row[self.old_value_mapping.get(field, field)]\<close>: the display column that stands for
  a key column (the payer stands for itself).
\<close>

fun old_value_mapping :: "key_column \<Rightarrow> ('d, 'n) route \<Rightarrow> string" where
  "old_value_mapping Departure_code r = departure_station_of_the_rf r"
| "old_value_mapping Destination_code r = rf_destination_station r"
| "old_value_mapping Payer r = payer_of_the_railway_tariff_unified r"
| "old_value_mapping Shipper_okpo r = shipper_by_puzt r"
| "old_value_mapping Consignee_okpo r = consignee_by_puzt r"

text \<open>Python's \<open>sep.join(xs)\<close>.\<close>

fun join :: "string \<Rightarrow> string list \<Rightarrow> string" where
  "join sep [] = []"
| "join sep [x] = x"
| "join sep (x # y # ys) = x @ sep @ join sep (y # ys)"

text \<open>
  \<open>==\<close> on two cells of route_min_date after \<open>prepare_data\<close>: two dates are equal when
  they are the same day, and NaT is equal to nothing, not even to NaT.
\<close>

fun date_eq :: "int option \<Rightarrow> int option \<Rightarrow> bool" where
  "date_eq (Some a) (Some b) = (a = b)"
| "date_eq _ _ = False"

section \<open>The classifier\<close>

text \<open>
  \<open>matching_values\<close>: for each key column 1 when the two rows agree on it, else 0
  (the comparison of the two rows cast to int).
\<close>

definition matching_values :: "('d, 'n) route \<Rightarrow> ('d, 'n) route \<Rightarrow> key_column \<Rightarrow> nat" where
  "matching_values current_route previous_route k =
     (if key_value k current_route = key_value k previous_route then 1 else 0)"

text \<open>
  \<open>compare_and_update_routes(df, current_index, previous_index)\<close>. The frame is passed
  in and returned, since the function writes to it; \<open>df.iloc\<close> raises IndexError out
  of range. The frame has the index 0, 1, ... that \<open>prepare_data\<close> gives it, so
  \<open>df.loc\<close> and \<open>df.iloc\<close> address the same row. The three provenance cells are written before the two station codes are
  looked at, and only when old_text_route_number is still empty.
\<close>

definition compare_and_update_routes ::
  "prepared_route list \<Rightarrow> nat \<Rightarrow> nat \<Rightarrow> error + (prepared_route list \<times> bool)" where
  "compare_and_update_routes df current_index previous_index =
     (if length df \<le> current_index \<or> length df \<le> previous_index then Inl IndexError
      else
        let current_route = df ! current_index;
            previous_route = df ! previous_index
        in
          if date_eq (route_min_date current_route) (route_min_date previous_route)
          then Inr (df, False)
          else if type_of_transportation current_route \<noteq> type_of_transportation previous_route
          then Inr (df, False)
          else
            let mv = matching_values current_route previous_route in
              if sum_list (map mv key_columns) < MIN_MATCHING_KEY_THRESHOLD
              then Inr (df, False)
              else
                let df' =
                  (if old_text_route_number (df ! current_index) = None
                   then
                     let changed_fields = filter (\<lambda>k. mv k = 0) key_columns;
                         old_values = map (\<lambda>field. old_value_mapping field previous_route) changed_fields
                     in df[current_index := (df ! current_index)
                          \<lparr>old_text_route_number := Some (text_route_number previous_route),
                           changed_field := Some (join '', '' (map column_name changed_fields)),
                           old_value_field := Some (join '', '' old_values)\<rparr>]
                   else df)
                in Inr (df', mv Departure_code = 1 \<and> mv Destination_code = 1))"

text \<open>
  The inner loop of \<open>analyze_routes\<close>, \<open>for j in reversed(range(i))\<close>:
  \<open>scan_previous df i n\<close> runs it for \<open>j = n - 1\<close> down to \<open>0\<close>. The first
  candidate for which the comparison answers True sets the category and ends the loop.
\<close>

fun scan_previous :: "prepared_route list \<Rightarrow> nat \<Rightarrow> nat \<Rightarrow> error + prepared_route list" where
  "scan_previous df i 0 = Inr df"
| "scan_previous df i (Suc j) =
     (case compare_and_update_routes df i j of
        Inl e \<Rightarrow> Inl e
      | Inr (df', True) \<Rightarrow> Inr (df'[i := (df' ! i)\<lparr>category_route := Route_change\<rparr>])
      | Inr (df', False) \<Rightarrow> scan_previous df' i j)"

text \<open>The outer loop, \<open>for i in range(1, len(df))\<close>, over the indices still to do.\<close>

fun analyze_rows :: "prepared_route list \<Rightarrow> nat list \<Rightarrow> error + prepared_route list" where
  "analyze_rows df [] = Inr df"
| "analyze_rows df (i # todo) =
     (case scan_previous df i i of
        Inl e \<Rightarrow> Inl e
      | Inr df' \<Rightarrow> analyze_rows df' todo)"

definition analyze_routes :: "prepared_route list \<Rightarrow> error + prepared_route list" where
  "analyze_routes df = analyze_rows df [1..<length df]"

section \<open>Normalisation\<close>

text \<open>
  \<open>Series.str.replace(pat, '')\<close> for a literal pattern: every occurrence of \<open>pat\<close>,
  found from the left and not overlapping, is removed.
\<close>

fun str_remove :: "string \<Rightarrow> string \<Rightarrow> string" where
  "str_remove pat [] = []"
| "str_remove pat (c # cs) =
     (if pat \<noteq> [] \<and> take (length pat) (c # cs) = pat
      then str_remove pat (drop (length pat - 1) cs)
      else c # str_remove pat cs)"

text \<open>
  The pattern of \<open>prepare_data\<close>: the Cyrillic capital letter Em (U+041C, the bytes D0 9C
  in UTF-8) and an underscore.
\<close>

definition route_prefix :: string where
  "route_prefix = [CHR 0xD0, CHR 0x9C, CHR ''_'']"

text \<open>
  \<open>Series.astype(dtype)\<close> on one column. The conversion of a cell is library code and
  is a parameter, \<open>convert\<close>, that answers \<open>Inl\<close> with the exception it raises for a
  cell it refuses. The cells are converted in the order of the rows, and the first
  refused cell raises: no column is produced.
\<close>

fun astype :: "('a \<Rightarrow> error + 'b) \<Rightarrow> 'a list \<Rightarrow> error + 'b list" where
  "astype convert [] = Inr []"
| "astype convert (x # xs) =
     (case convert x of
        Inl e \<Rightarrow> Inl e
      | Inr y \<Rightarrow> (case astype convert xs of Inl e \<Rightarrow> Inl e | Inr ys \<Rightarrow> Inr (y # ys)))"

text \<open>
  A row with new cells in the five columns that \<open>prepare_data\<close> converts: the date and
  the four counters. All other cells of the row are kept.
\<close>

definition with_cells ::
  "('d, 'n) route \<Rightarrow> 'e \<Rightarrow> 'm \<Rightarrow> 'm \<Rightarrow> 'm \<Rightarrow> 'm \<Rightarrow> ('e, 'm) route" where
  "with_cells r d c m y t =
     \<lparr>text_route_number = text_route_number r,
      text_route_number_count = c,
      route_month = m,
      route_year = y,
      teu = t,
      type_of_transportation = type_of_transportation r,
      route_min_date = d,
      departure_station_code_of_rf = departure_station_code_of_rf r,
      destination_station_code_of_rf = destination_station_code_of_rf r,
      payer_of_the_railway_tariff_unified = payer_of_the_railway_tariff_unified r,
      shipper_okpo = shipper_okpo r,
      consignee_okpo = consignee_okpo r,
      departure_station_of_the_rf = departure_station_of_the_rf r,
      rf_destination_station = rf_destination_station r,
      shipper_by_puzt = shipper_by_puzt r,
      consignee_by_puzt = consignee_by_puzt r,
      category_route = category_route r,
      old_text_route_number = old_text_route_number r,
      changed_field = changed_field r,
      old_value_field = old_value_field r\<rparr>"

text \<open>
  The place of a date cell in \<open>sort_values\<close>: dates in ascending order, NaT after every
  date (na_position is 'last' by default).
\<close>

fun date_rank :: "int option \<Rightarrow> nat \<times> int" where
  "date_rank (Some d) = (0, d)"
| "date_rank None = (1, 0)"

definition sort_column :: "prepared_route \<times> nat \<Rightarrow> (nat \<times> int) \<times> nat" where
  "sort_column p = (date_rank (route_min_date (fst p)), snd p)"

text \<open>
  \<open>prepare_data(df)\<close>, in the order of the source.

  Lines 117 to 127: the four counter columns are cast to Int64. For this dtype pandas
  casts a frame column by column, in the order of the selection; \<open>to_Int64\<close> is the
  conversion of one cell.

  Line 129, \<open>pd.to_datetime(df['route_min_date'], errors='coerce').dt.date\<close>: the parser
  is library code and is the parameter \<open>to_datetime\<close>, which answers \<open>None\<close> for a text
  it cannot parse (the NaT of errors='coerce') and never raises.

  Lines 130 to 135: the prefix is removed from every route number and the column of the
  results is cast to uint32, \<open>to_uint32\<close> being the conversion of one text; the frame is
  sorted by (route_min_date, text_route_number_int) with a stable sort, and the helper
  column is dropped again.

  Lines 136 to 139: the four output columns are set for every row.

  The function has no \<open>try\<close>: the exception of the first failing cast leaves it.
\<close>

definition prepare_data ::
  "('n \<Rightarrow> error + int option) \<Rightarrow> (string \<Rightarrow> int option) \<Rightarrow> (string \<Rightarrow> error + nat)
     \<Rightarrow> (string, 'n) route list \<Rightarrow> error + prepared_route list" where
  "prepare_data to_Int64 to_datetime to_uint32 df =
     (case astype to_Int64 (map text_route_number_count df) of
        Inl e \<Rightarrow> Inl e
      | Inr counts \<Rightarrow>
     (case astype to_Int64 (map route_month df) of
        Inl e \<Rightarrow> Inl e
      | Inr months \<Rightarrow>
     (case astype to_Int64 (map route_year df) of
        Inl e \<Rightarrow> Inl e
      | Inr years \<Rightarrow>
     (case astype to_Int64 (map teu df) of
        Inl e \<Rightarrow> Inl e
      | Inr teus \<Rightarrow>
          let df1 = map (\<lambda>(r, c, m, y, t). with_cells r (to_datetime (route_min_date r)) c m y t)
                      (zip df (zip counts (zip months (zip years teus))))
          in
     (case astype to_uint32 (map (\<lambda>r. str_remove route_prefix (text_route_number r)) df1) of
        Inl e \<Rightarrow> Inl e
      | Inr text_route_number_int \<Rightarrow>
          let df2 = map fst (sort_key sort_column (zip df1 text_route_number_int))
          in Inr (map (\<lambda>r. r\<lparr>category_route := New_route,
                               old_text_route_number := None,
                               changed_field := None,
                               old_value_field := None\<rparr>) df2))))))"

section \<open>The run and the sink\<close>

text \<open>
  \<open>run()\<close>, lines 66 to 71, without the logging: \<open>fetched\<close> is what \<open>fetch_data\<close>
  returned (\<open>None\<close> when the table is empty). Nothing in \<open>run\<close> catches an exception of
  \<open>prepare_data\<close> or \<open>analyze_routes\<close>, so an error of either ends the run. The result
  \<open>Some df\<close> is the frame handed to \<open>insert_data\<close>.
\<close>

definition run ::
  "('n \<Rightarrow> error + int option) \<Rightarrow> (string \<Rightarrow> int option) \<Rightarrow> (string \<Rightarrow> error + nat)
     \<Rightarrow> (string, 'n) route list option \<Rightarrow> error + prepared_route list option" where
  "run to_Int64 to_datetime to_uint32 fetched =
     (case fetched of
        None \<Rightarrow> Inr None
      | Some df \<Rightarrow>
          (case prepare_data to_Int64 to_datetime to_uint32 df of
             Inl e \<Rightarrow> Inl e
           | Inr df1 \<Rightarrow>
               (case analyze_routes df1 of
                  Inl e \<Rightarrow> Inl e
                | Inr df2 \<Rightarrow> Inr (Some df2))))"

text \<open>
  \<open>save_to_file\<close> and \<open>insert_data\<close> act on the outside world only. They are modelled by
  the calls they make, in order: the two library calls \<open>df.to_csv\<close> and
  \<open>client.insert_df\<close>, each of which returns or raises an Exception (a parameter), and
  the log lines; \<open>df.replace\<close> before them works on the frame in memory and is taken
  to return. \<open>save_to_file\<close> catches the exception of \<open>to_csv\<close> and returns in both
  cases; \<open>insert_data\<close> ends with \<open>sys.exit(1)\<close> when \<open>insert_df\<close> raises.
\<close>

datatype outcome = Returns | Raises

datatype event = Logger_info | Logger_error | To_csv | Insert_df

datatype ending = Return | Sys_exit nat

definition save_to_file :: "outcome \<Rightarrow> event list" where
  "save_to_file to_csv =
     (case to_csv of
        Returns \<Rightarrow> [To_csv, Logger_info]
      | Raises \<Rightarrow> [To_csv, Logger_error])"

definition insert_data :: "outcome \<Rightarrow> outcome \<Rightarrow> event list \<times> ending" where
  "insert_data to_csv insert_df =
     (let saved = [Logger_info] @ save_to_file to_csv in
      case insert_df of
        Returns \<Rightarrow> (saved @ [Insert_df, Logger_info], Return)
      | Raises \<Rightarrow> (saved @ [Insert_df, Logger_error], Sys_exit 1))"

section \<open>Library parameters for the examples\<close>

text \<open>
  Instances of the library parameters, for running the model on examples, where all
  cells to convert are texts. On a text of decimal digits, and on a text without any, they
  answer as the library does: the number, OverflowError for a number that does not fit
  uint32, ValueError for a text such as 'abc' or 'n/a'. They refuse every other text,
  which the library does not (\<open>int\<close> also takes a sign, blanks and underscores;
  \<open>to_datetime\<close> takes many formats), so they are used on the example rows only.
\<close>

definition digit_of :: "char \<Rightarrow> nat option" where
  "digit_of c = (let n = (of_char c :: nat) in if 48 \<le> n \<and> n \<le> 57 then Some (n - 48) else None)"

fun decimal_from :: "nat \<Rightarrow> string \<Rightarrow> nat option" where
  "decimal_from acc [] = Some acc"
| "decimal_from acc (c # cs) =
     (case digit_of c of None \<Rightarrow> None | Some d \<Rightarrow> decimal_from (10 * acc + d) cs)"

definition decimal :: "string \<Rightarrow> nat option" where
  "decimal s = (if s = [] then None else decimal_from 0 s)"

definition decimal_uint32 :: "string \<Rightarrow> error + nat" where
  "decimal_uint32 s =
     (case decimal s of
        None \<Rightarrow> Inl ValueError
      | Some n \<Rightarrow> if n < 4294967296 then Inr n else Inl OverflowError)"

definition decimal_Int64 :: "string \<Rightarrow> error + int option" where
  "decimal_Int64 s =
     (case decimal s of
        None \<Rightarrow> Inl ValueError
      | Some n \<Rightarrow> if n < 9223372036854775808 then Inr (Some (int n)) else Inl OverflowError)"

text \<open>Days from 1970-01-01 to a date of the proleptic Gregorian calendar.\<close>

definition days_from_civil :: "int \<Rightarrow> int \<Rightarrow> int \<Rightarrow> int" where
  "days_from_civil y m d =
     (let y' = (if m \<le> 2 then y - 1 else y);
          era = y' div 400;
          yoe = y' - era * 400;
          mp = (m + 9) mod 12;
          doy = (153 * mp + 2) div 5 + d - 1;
          doe = yoe * 365 + yoe div 4 - yoe div 100 + doy
      in era * 146097 + doe - 719468)"

definition days_in_month :: "int \<Rightarrow> int \<Rightarrow> int" where
  "days_in_month y m =
     (if m = 2 then (if y mod 4 = 0 \<and> (y mod 100 \<noteq> 0 \<or> y mod 400 = 0) then 29 else 28)
      else if m = 4 \<or> m = 6 \<or> m = 9 \<or> m = 11 then 30 else 31)"

text \<open>Texts of the form YYYY-MM-DD.\<close>

definition iso_date :: "string \<Rightarrow> int option" where
  "iso_date s =
     (if length s = 10 \<and> s ! 4 = CHR ''-'' \<and> s ! 7 = CHR ''-'' then
        (case (decimal (take 4 s), decimal (take 2 (drop 5 s)), decimal (drop 8 s)) of
           (Some y, Some m, Some d) \<Rightarrow>
             if 1 \<le> y \<and> 1 \<le> m \<and> m \<le> 12 \<and> 1 \<le> d \<and> int d \<le> days_in_month (int y) (int m)
             then Some (days_from_civil (int y) (int m) (int d))
             else None
         | _ \<Rightarrow> None)
      else None)"

section \<open>Conditions and the row-wise view of the classifier\<close>

text \<open>
  The definitions of this section are not functions of the program. They name the
  conditions the claims speak of and give the classifier one row at a time; the lemmas
  below relate them to \<open>compare_and_update_routes\<close> and \<open>analyze_routes\<close>.

  \<open>candidate c p\<close>: the first three conditions of the comparison hold for the current
  row \<open>c\<close> and the earlier row \<open>p\<close> (dates compare unequal, same transport type, at
  least \<open>MIN_MATCHING_KEY_THRESHOLD\<close> equal key columns).
\<close>

definition candidate :: "prepared_route \<Rightarrow> prepared_route \<Rightarrow> bool" where
  "candidate c p \<longleftrightarrow>
     \<not> date_eq (route_min_date c) (route_min_date p)
     \<and> type_of_transportation c = type_of_transportation p
     \<and> MIN_MATCHING_KEY_THRESHOLD \<le> sum_list (map (matching_values c p) key_columns)"

text \<open>The fourth condition: the same departure and destination station codes.\<close>

definition same_corridor :: "('d, 'n) route \<Rightarrow> ('d, 'n) route \<Rightarrow> bool" where
  "same_corridor c p \<longleftrightarrow>
     departure_station_code_of_rf c = departure_station_code_of_rf p
     \<and> destination_station_code_of_rf c = destination_station_code_of_rf p"

text \<open>The key columns on which two rows differ, in the order of \<open>key_columns\<close>.\<close>

definition differing :: "('d, 'n) route \<Rightarrow> ('d, 'n) route \<Rightarrow> key_column list" where
  "differing c p = filter (\<lambda>k. key_value k c \<noteq> key_value k p) key_columns"

text \<open>The row \<open>c\<close> with its three provenance cells written from the earlier row \<open>p\<close>.\<close>

definition with_provenance :: "prepared_route \<Rightarrow> prepared_route \<Rightarrow> prepared_route" where
  "with_provenance c p =
     c\<lparr>old_text_route_number := Some (text_route_number p),
       changed_field := Some (join '', '' (map column_name (differing c p))),
       old_value_field := Some (join '', '' (map (\<lambda>k. old_value_mapping k p) (differing c p)))\<rparr>"

text \<open>What one call of \<open>compare_and_update_routes\<close> makes of the current row.\<close>

definition compare_row :: "prepared_route \<Rightarrow> prepared_route \<Rightarrow> prepared_route" where
  "compare_row c p =
     (if candidate c p \<and> old_text_route_number c = None then with_provenance c p else c)"

text \<open>
  The inner loop on the current row alone: \<open>ps\<close> are the earlier rows in the order of
  the scan, nearest first.
\<close>

fun scan_row :: "prepared_route \<Rightarrow> prepared_route list \<Rightarrow> prepared_route" where
  "scan_row c [] = c"
| "scan_row c (p # ps) =
     (if candidate c p \<and> same_corridor c p
      then (compare_row c p)\<lparr>category_route := Route_change\<rparr>
      else scan_row (compare_row c p) ps)"

text \<open>
  A row with its four output cells reset, as in \<open>prepare_data\<close>: two rows with the same
  \<open>inputs\<close> agree on every column the comparison reads.
\<close>

definition inputs :: "prepared_route \<Rightarrow> prepared_route" where
  "inputs r = r\<lparr>category_route := New_route, old_text_route_number := None,
                 changed_field := None, old_value_field := None\<rparr>"

text \<open>Row \<open>i\<close> of the result of \<open>analyze_routes\<close>.\<close>

definition classify :: "prepared_route list \<Rightarrow> nat \<Rightarrow> prepared_route" where
  "classify df i = (if i = 0 then df ! 0 else scan_row (df ! i) (rev (take i df)))"

text \<open>
  The provenance cells after the scan: written from the nearest candidate when they
  were empty and there is a candidate, else as they were.
\<close>

definition provenance :: "prepared_route \<Rightarrow> prepared_route list \<Rightarrow> prepared_route" where
  "provenance c ps =
     (if old_text_route_number c = None
      then (case find (candidate c) ps of None \<Rightarrow> c | Some p \<Rightarrow> with_provenance c p)
      else c)"

text \<open>
  A fetched row with its five converted cells, when every conversion of a counter cell
  returns; and the counter cells of a row, in the order of the cast.
\<close>

definition cast_row ::
  "('n \<Rightarrow> error + int option) \<Rightarrow> (string \<Rightarrow> int option) \<Rightarrow> (string, 'n) route \<Rightarrow> prepared_route" where
  "cast_row I P r =
     with_cells r (P (route_min_date r))
       (projr (I (text_route_number_count r))) (projr (I (route_month r)))
       (projr (I (route_year r))) (projr (I (teu r)))"

definition counter_cells :: "('d, 'n) route \<Rightarrow> 'n list" where
  "counter_cells r = [text_route_number_count r, route_month r, route_year r, teu r]"

text \<open>
  The comma-separated entries of a cell, as Python's \<open>s.split(', ')\<close> gives them, and
  the texts that hold no separator.
\<close>

fun split_comma :: "string \<Rightarrow> string list" where
  "split_comma [] = [[]]"
| "split_comma [c] = [[c]]"
| "split_comma (c # d # cs) =
     (if c = CHR '','' \<and> d = CHR '' '' then [] # split_comma cs
      else (case split_comma (d # cs) of [] \<Rightarrow> [[c]] | w # ws \<Rightarrow> (c # w) # ws))"

fun sep_free :: "string \<Rightarrow> bool" where
  "sep_free [] = True"
| "sep_free [c] = True"
| "sep_free (c # d # cs) = (\<not> (c = CHR '','' \<and> d = CHR '' '') \<and> sep_free (d # cs))"

section \<open>Example frames\<close>

text \<open>
  A row of the examples: the route number is the prefix and \<open>number\<close>, the four
  counter cells all hold \<open>counter\<close>, the display columns are made from the codes, and
  the output columns hold what a frame without them would get in \<open>prepare_data\<close>.
\<close>

definition example_route ::
  "string \<Rightarrow> 'd \<Rightarrow> 'n \<Rightarrow> string \<Rightarrow> string \<Rightarrow> string \<Rightarrow> string \<Rightarrow> string \<Rightarrow> string
     \<Rightarrow> ('d, 'n) route" where
  "example_route number date counter transport departure destination payer shipper consignee =
     \<lparr>text_route_number = route_prefix @ number,
      text_route_number_count = counter,
      route_month = counter,
      route_year = counter,
      teu = counter,
      type_of_transportation = transport,
      route_min_date = date,
      departure_station_code_of_rf = departure,
      destination_station_code_of_rf = destination,
      payer_of_the_railway_tariff_unified = payer,
      shipper_okpo = shipper,
      consignee_okpo = consignee,
      departure_station_of_the_rf = ''station '' @ departure,
      rf_destination_station = ''station '' @ destination,
      shipper_by_puzt = ''shipper '' @ shipper,
      consignee_by_puzt = ''consignee '' @ consignee,
      category_route = New_route,
      old_text_route_number = None,
      changed_field = None,
      old_value_field = None\<rparr>"

text \<open>
  Three routes of one transport type, fetched newest first. Route 2 leaves from another
  station than routes 1 and 3; all other key columns agree.
\<close>

definition example_rows :: "(string, string) route list" where
  "example_rows =
     [example_route ''3'' ''2024-03-01'' ''1'' ''T'' ''001'' ''100'' ''P1'' ''S1'' ''C1'',
      example_route ''2'' ''2024-02-01'' ''1'' ''T'' ''002'' ''100'' ''P1'' ''S1'' ''C1'',
      example_route ''1'' ''2024-01-01'' ''1'' ''T'' ''001'' ''100'' ''P1'' ''S1'' ''C1'']"

definition example_df :: "prepared_route list" where
  "example_df =
     [example_route ''1'' (Some 19723) (Some 1) ''T'' ''001'' ''100'' ''P1'' ''S1'' ''C1'',
      example_route ''2'' (Some 19754) (Some 1) ''T'' ''002'' ''100'' ''P1'' ''S1'' ''C1'',
      example_route ''3'' (Some 19783) (Some 1) ''T'' ''001'' ''100'' ''P1'' ''S1'' ''C1'']"

definition example_out :: "prepared_route list" where
  "example_out =
     [example_route ''1'' (Some 19723) (Some 1) ''T'' ''001'' ''100'' ''P1'' ''S1'' ''C1'',
      (example_route ''2'' (Some 19754) (Some 1) ''T'' ''002'' ''100'' ''P1'' ''S1'' ''C1'')
        \<lparr>old_text_route_number := Some (route_prefix @ ''1''),
         changed_field := Some ''departure_station_code_of_rf'',
         old_value_field := Some ''station 001''\<rparr>,
      (example_route ''3'' (Some 19783) (Some 1) ''T'' ''001'' ''100'' ''P1'' ''S1'' ''C1'')
        \<lparr>category_route := Route_change,
         old_text_route_number := Some (route_prefix @ ''2''),
         changed_field := Some ''departure_station_code_of_rf'',
         old_value_field := Some ''station 002''\<rparr>]"

text \<open>Two routes that agree on all five key columns, a month apart.\<close>

definition repeat_rows :: "(string, string) route list" where
  "repeat_rows =
     [example_route ''1'' ''2024-01-01'' ''1'' ''T'' ''001'' ''100'' ''P1'' ''S1'' ''C1'',
      example_route ''2'' ''2024-02-01'' ''1'' ''T'' ''001'' ''100'' ''P1'' ''S1'' ''C1'']"

definition repeat_df :: "prepared_route list" where
  "repeat_df =
     [example_route ''1'' (Some 19723) (Some 1) ''T'' ''001'' ''100'' ''P1'' ''S1'' ''C1'',
      example_route ''2'' (Some 19754) (Some 1) ''T'' ''001'' ''100'' ''P1'' ''S1'' ''C1'']"

definition repeat_out :: "prepared_route list" where
  "repeat_out =
     [example_route ''1'' (Some 19723) (Some 1) ''T'' ''001'' ''100'' ''P1'' ''S1'' ''C1'',
      (example_route ''2'' (Some 19754) (Some 1) ''T'' ''001'' ''100'' ''P1'' ''S1'' ''C1'')
        \<lparr>category_route := Route_change,
         old_text_route_number := Some (route_prefix @ ''1''),
         changed_field := Some '''',
         old_value_field := Some ''''\<rparr>]"

text \<open>
  Two routes that differ in the payer only; the payer of the earlier one has a comma in
  its name.
\<close>

definition comma_rows :: "(string, string) route list" where
  "comma_rows =
     [example_route ''1'' ''2024-01-01'' ''1'' ''T'' ''001'' ''100'' ''Smith, Sons'' ''S1'' ''C1'',
      example_route ''2'' ''2024-02-01'' ''1'' ''T'' ''001'' ''100'' ''P2'' ''S1'' ''C1'']"

definition comma_df :: "prepared_route list" where
  "comma_df =
     [example_route ''1'' (Some 19723) (Some 1) ''T'' ''001'' ''100'' ''Smith, Sons'' ''S1'' ''C1'',
      example_route ''2'' (Some 19754) (Some 1) ''T'' ''001'' ''100'' ''P2'' ''S1'' ''C1'']"

definition comma_out :: "prepared_route list" where
  "comma_out =
     [example_route ''1'' (Some 19723) (Some 1) ''T'' ''001'' ''100'' ''Smith, Sons'' ''S1'' ''C1'',
      (example_route ''2'' (Some 19754) (Some 1) ''T'' ''001'' ''100'' ''P2'' ''S1'' ''C1'')
        \<lparr>category_route := Route_change,
         old_text_route_number := Some (route_prefix @ ''1''),
         changed_field := Some ''payer_of_the_railway_tariff_unified'',
         old_value_field := Some ''Smith, Sons''\<rparr>]"




text \<open>
  Three routes that agree on all key columns; the date texts of routes 1 and 3 cannot be
  parsed.
\<close>

definition undated_rows :: "(string, string) route list" where
  "undated_rows =
     [example_route ''1'' ''n/a'' ''1'' ''T'' ''001'' ''100'' ''P1'' ''S1'' ''C1'',
      example_route ''2'' ''2024-01-01'' ''1'' ''T'' ''001'' ''100'' ''P1'' ''S1'' ''C1'',
      example_route ''3'' ''n/a'' ''1'' ''T'' ''001'' ''100'' ''P1'' ''S1'' ''C1'']"

definition undated_df :: "prepared_route list" where
  "undated_df =
     [example_route ''2'' (Some 19723) (Some 1) ''T'' ''001'' ''100'' ''P1'' ''S1'' ''C1'',
      example_route ''1'' None (Some 1) ''T'' ''001'' ''100'' ''P1'' ''S1'' ''C1'',
      example_route ''3'' None (Some 1) ''T'' ''001'' ''100'' ''P1'' ''S1'' ''C1'']"

definition undated_out :: "prepared_route list" where
  "undated_out =
     [example_route ''2'' (Some 19723) (Some 1) ''T'' ''001'' ''100'' ''P1'' ''S1'' ''C1'',
      (example_route ''1'' None (Some 1) ''T'' ''001'' ''100'' ''P1'' ''S1'' ''C1'')
        \<lparr>category_route := Route_change,
         old_text_route_number := Some (route_prefix @ ''2''),
         changed_field := Some '''',
         old_value_field := Some ''''\<rparr>,
      (example_route ''3'' None (Some 1) ''T'' ''001'' ''100'' ''P1'' ''S1'' ''C1'')
        \<lparr>category_route := Route_change,
         old_text_route_number := Some (route_prefix @ ''1''),
         changed_field := Some '''',
         old_value_field := Some ''''\<rparr>]"

section \<open>The classifier, row by row\<close>

lemma matching_values_one: "matching_values c p k = Suc 0 \<longleftrightarrow> key_value k c = key_value k p"
  by (simp add: matching_values_def)

lemma matching_values_zero: "matching_values c p k = 0 \<longleftrightarrow> key_value k c \<noteq> key_value k p"
  by (simp add: matching_values_def)

lemma compare_and_update_routes_row:
  assumes "ci < length df" and "pi < length df"
  shows "compare_and_update_routes df ci pi =
           Inr (df[ci := compare_row (df ! ci) (df ! pi)],
                candidate (df ! ci) (df ! pi) \<and> same_corridor (df ! ci) (df ! pi))"
  using assms
  by (auto simp: compare_and_update_routes_def Let_def compare_row_def candidate_def
      same_corridor_def with_provenance_def differing_def matching_values_one
      matching_values_zero not_less)

lemma scan_previous_row:
  "i < length df \<Longrightarrow> n \<le> i \<Longrightarrow>
     scan_previous df i n = Inr (df[i := scan_row (df ! i) (rev (take n df))])"
proof (induction n arbitrary: df)
  case 0
  then show ?case by simp
next
  case (Suc n)
  let ?c = "compare_row (df ! i) (df ! n)"
  let ?df = "df[i := ?c]"
  have n: "n < length df" "n < i" using Suc.prems by auto
  have cmp: "compare_and_update_routes df i n =
      Inr (?df, candidate (df ! i) (df ! n) \<and> same_corridor (df ! i) (df ! n))"
    using compare_and_update_routes_row [of i df n] Suc.prems n by simp
  have tk: "rev (take (Suc n) df) = df ! n # rev (take n df)"
    using n by (simp add: take_Suc_conv_app_nth)
  show ?case
  proof (cases "candidate (df ! i) (df ! n) \<and> same_corridor (df ! i) (df ! n)")
    case True
    then show ?thesis using cmp tk Suc.prems by simp
  next
    case False
    have "scan_previous ?df i n = Inr (?df[i := scan_row (?df ! i) (rev (take n ?df))])"
      using Suc.IH [of ?df] Suc.prems by simp
    moreover have "take n ?df = take n df" using n by simp
    moreover have "?df ! i = ?c" using Suc.prems by simp
    ultimately show ?thesis using cmp tk False by auto
  qed
qed

lemma inputs_fields:
  assumes "inputs p = inputs q"
  shows "text_route_number p = text_route_number q"
    and "type_of_transportation p = type_of_transportation q"
    and "route_min_date p = route_min_date q"
    and "key_value k p = key_value k q"
    and "old_value_mapping k p = old_value_mapping k q"
proof -
  have sel: "f (inputs p) = f (inputs q)" for f :: "prepared_route \<Rightarrow> string"
    using assms by simp
  show "text_route_number p = text_route_number q"
    using sel [of text_route_number] by (simp add: inputs_def)
  show "type_of_transportation p = type_of_transportation q"
    using sel [of type_of_transportation] by (simp add: inputs_def)
  have "route_min_date (inputs p) = route_min_date (inputs q)" using assms by simp
  then show "route_min_date p = route_min_date q" by (simp add: inputs_def)
  show "key_value k p = key_value k q"
    using sel [of "key_value k"] by (cases k) (simp_all add: inputs_def)
  show "old_value_mapping k p = old_value_mapping k q"
    using sel [of "old_value_mapping k"] by (cases k) (simp_all add: inputs_def)
qed

lemma candidate_cong:
  "inputs c = inputs c' \<Longrightarrow> inputs p = inputs p' \<Longrightarrow> candidate c p = candidate c' p'"
  using inputs_fields [of c c'] inputs_fields [of p p']
  by (simp add: candidate_def matching_values_def [abs_def])

lemma same_corridor_cong:
  "inputs c = inputs c' \<Longrightarrow> inputs p = inputs p' \<Longrightarrow> same_corridor c p = same_corridor c' p'"
  using inputs_fields(4) [of c c' Departure_code] inputs_fields(4) [of p p' Departure_code]
    inputs_fields(4) [of c c' Destination_code] inputs_fields(4) [of p p' Destination_code]
  by (simp add: same_corridor_def)

lemma with_provenance_cong:
  "inputs p = inputs p' \<Longrightarrow> with_provenance c p = with_provenance c p'"
  using inputs_fields [of p p']
  by (simp add: with_provenance_def differing_def)

lemma compare_row_cong:
  "inputs p = inputs p' \<Longrightarrow> compare_row c p = compare_row c p'"
  using candidate_cong [of c c p p'] with_provenance_cong [of p p' c]
  by (simp add: compare_row_def)

lemma inputs_compare_row: "inputs (compare_row c p) = inputs c"
  by (simp add: compare_row_def with_provenance_def inputs_def)

lemma inputs_category: "inputs (c\<lparr>category_route := x\<rparr>) = inputs c"
  by (simp add: inputs_def)

lemma inputs_scan_row: "inputs (scan_row c ps) = inputs c"
  by (induction ps arbitrary: c) (simp_all add: inputs_compare_row inputs_category)

lemma scan_row_cong:
  "map inputs ps = map inputs ps' \<Longrightarrow> scan_row c ps = scan_row c ps'"
proof (induction ps arbitrary: ps' c)
  case Nil
  then show ?case by simp
next
  case (Cons p ps)
  then obtain p' qs where ps': "ps' = p' # qs" and p: "inputs p = inputs p'"
    and qs: "map inputs ps = map inputs qs"
    by (cases ps') auto
  have "scan_row (compare_row c p) ps = scan_row (compare_row c p) qs"
    using Cons.IH [OF qs] .
  then show ?case
    using ps' candidate_cong [of c c p p'] same_corridor_cong [of c c p p']
      compare_row_cong [OF p, of c] p
    by simp
qed

lemma analyze_rows_upt:
  "m = length d - k \<Longrightarrow> k \<le> length d \<Longrightarrow>
     \<exists>d'. analyze_rows d [k..<length d] = Inr d' \<and> length d' = length d
        \<and> (\<forall>i<k. d' ! i = d ! i)
        \<and> (\<forall>i. k \<le> i \<and> i < length d \<longrightarrow> d' ! i = scan_row (d ! i) (rev (take i d')))"
proof (induction m arbitrary: d k)
  case 0
  then show ?case by auto
next
  case (Suc m)
  then have k: "k < length d" by simp
  let ?d1 = "d[k := scan_row (d ! k) (rev (take k d))]"
  have step: "scan_previous d k k = Inr ?d1"
    using scan_previous_row [of k d k] k by simp
  have "m = length ?d1 - Suc k" "Suc k \<le> length ?d1" using Suc.prems by simp_all
  from Suc.IH [OF this] obtain d' where
    run: "analyze_rows ?d1 [Suc k..<length d] = Inr d'" and len: "length d' = length d"
    and low: "\<forall>i<Suc k. d' ! i = ?d1 ! i"
    and high: "\<forall>i. Suc k \<le> i \<and> i < length d \<longrightarrow> d' ! i = scan_row (?d1 ! i) (rev (take i d'))"
    by auto
  have "analyze_rows d [k..<length d] = Inr d'"
    using k step run by (simp add: upt_conv_Cons)
  moreover have low': "\<forall>i<k. d' ! i = d ! i" using low by simp
  moreover have "d' ! i = scan_row (d ! i) (rev (take i d'))" if "k \<le> i" "i < length d" for i
  proof (cases "i = k")
    case True
    have "take k d' = take k d"
      using low' len k by (intro nth_take_lemma) simp_all
    then show ?thesis using True low k by simp
  next
    case False
    then show ?thesis using that high by simp
  qed
  ultimately show ?case using len by blast
qed

lemma analyze_routes_classify:
  "analyze_routes df = Inr (map (classify df) [0..<length df])"
proof (cases "df = []")
  case True
  then show ?thesis by (simp add: analyze_routes_def)
next
  case False
  then have pos: "1 \<le> length df" by (cases df) simp_all
  from analyze_rows_upt [OF refl pos] obtain d' where
    run: "analyze_rows df [1..<length df] = Inr d'" and len: "length d' = length df"
    and low: "\<forall>i<1. d' ! i = df ! i"
    and high: "\<forall>i. 1 \<le> i \<and> i < length df \<longrightarrow> d' ! i = scan_row (df ! i) (rev (take i d'))"
    by blast
  have inp: "inputs (d' ! i) = inputs (df ! i)" if "i < length df" for i
    using that low high by (cases "i = 0") (simp_all add: inputs_scan_row)
  have "d' ! i = classify df i" if i: "i < length df" for i
  proof (cases "i = 0")
    case True
    then show ?thesis using low by (simp add: classify_def)
  next
    case False
    have "map inputs (take i d') = map inputs (take i df)"
      using i len inp by (intro nth_equalityI) simp_all
    then have "rev (map inputs (take i d')) = rev (map inputs (take i df))"
      by simp
    then have "map inputs (rev (take i d')) = map inputs (rev (take i df))"
      by (simp add: rev_map)
    from scan_row_cong [OF this] show ?thesis
      using False i high by (simp add: classify_def)
  qed
  then have "d' = map (classify df) [0..<length df]"
    using len by (intro nth_equalityI) simp_all
  then show ?thesis using run by (simp add: analyze_routes_def)
qed

lemma match_compare_row:
  "candidate (compare_row c q) p = candidate c p"
  "same_corridor (compare_row c q) p = same_corridor c p"
  using candidate_cong [OF inputs_compare_row refl] same_corridor_cong [OF inputs_compare_row refl]
  by blast+

lemma scan_row_closed:
  "scan_row c ps =
     (if \<exists>p\<in>set ps. candidate c p \<and> same_corridor c p
      then (provenance c ps)\<lparr>category_route := Route_change\<rparr>
      else provenance c ps)"
proof (induction ps arbitrary: c)
  case Nil
  then show ?case by (simp add: provenance_def)
next
  case (Cons p ps)
  let ?w = "compare_row c p"
  have inp: "inputs ?w = inputs c" by (rule inputs_compare_row)
  have c1: "candidate ?w q = candidate c q" for q
    using candidate_cong [OF inp refl] .
  have c2: "same_corridor ?w q = same_corridor c q" for q
    using same_corridor_cong [OF inp refl] .
  have prov: "provenance c (p # ps) = provenance ?w ps"
  proof (cases "candidate c p \<and> old_text_route_number c = None")
    case True
    then have "?w = with_provenance c p" by (simp add: compare_row_def)
    moreover have "provenance (with_provenance c p) ps = with_provenance c p"
      by (simp add: provenance_def with_provenance_def)
    moreover have "provenance c (p # ps) = with_provenance c p"
      using True by (simp add: provenance_def)
    ultimately show ?thesis by simp
  next
    case False
    then have "?w = c" by (auto simp: compare_row_def)
    moreover have "provenance c (p # ps) = provenance c ps"
      using False by (auto simp: provenance_def)
    ultimately show ?thesis by simp
  qed
  have first: "provenance ?w ps = ?w" if "candidate c p"
  proof (cases "old_text_route_number c = None")
    case True
    then show ?thesis using that by (simp add: compare_row_def provenance_def with_provenance_def)
  next
    case False
    then show ?thesis by (auto simp: compare_row_def provenance_def)
  qed
  show ?case
  proof (cases "candidate c p \<and> same_corridor c p")
    case True
    then show ?thesis using prov first by simp
  next
    case False
    have "scan_row c (p # ps) = scan_row ?w ps"
      by (simp only: scan_row.simps False if_False)
    moreover have ex: "(\<exists>q\<in>set (p # ps). candidate c q \<and> same_corridor c q)
        \<longleftrightarrow> (\<exists>q\<in>set ps. candidate c q \<and> same_corridor c q)"
      using False by (metis set_ConsD list.set_intros(2))
    moreover have "scan_row ?w ps = (if \<exists>q\<in>set ps. candidate c q \<and> same_corridor c q
        then (provenance ?w ps)\<lparr>category_route := Route_change\<rparr> else provenance ?w ps)"
      using Cons.IH [of ?w] by (simp only: c1 c2)
    ultimately show ?thesis by (simp only: prov)
  qed
qed

lemma set_rev_take: "i \<le> length xs \<Longrightarrow> set (rev (take i xs)) = {xs ! j | j. j < i}"
  by (auto simp: in_set_conv_nth) (metis min.absorb2 nth_take, force)

lemma find_rev_take_None:
  "i \<le> length xs \<Longrightarrow> find P (rev (take i xs)) = None \<longleftrightarrow> (\<forall>j<i. \<not> P (xs ! j))"
  by (auto simp: find_None_iff set_rev_take simp del: set_rev)

lemma find_rev_take_Some:
  "i \<le> length xs \<Longrightarrow> find P (rev (take i xs)) = Some p \<Longrightarrow>
     \<exists>j<i. p = xs ! j \<and> P (xs ! j) \<and> (\<forall>k. j < k \<and> k < i \<longrightarrow> \<not> P (xs ! k))"
proof (induction i)
  case 0
  then show ?case by simp
next
  case (Suc i)
  then have i: "i < length xs" by simp
  have tk: "rev (take (Suc i) xs) = xs ! i # rev (take i xs)"
    using i by (simp add: take_Suc_conv_app_nth)
  show ?case
  proof (cases "P (xs ! i)")
    case True
    then have "p = xs ! i" using Suc.prems(2) tk by simp
    then show ?thesis using True by (intro exI [of _ i]) auto
  next
    case False
    then have "find P (rev (take i xs)) = Some p" using Suc.prems(2) tk by simp
    with Suc.IH i obtain j where j: "j < i" "p = xs ! j" "P (xs ! j)"
      "\<forall>k. j < k \<and> k < i \<longrightarrow> \<not> P (xs ! k)" by auto
    have "\<forall>k. j < k \<and> k < Suc i \<longrightarrow> \<not> P (xs ! k)"
      using j(4) False by (auto simp: less_Suc_eq)
    then show ?thesis using j by (intro exI [of _ j]) auto
  qed
qed

lemma find_rev_take_nearest:
  assumes "i \<le> length xs" "j < i" "P (xs ! j)" "\<forall>k. j < k \<and> k < i \<longrightarrow> \<not> P (xs ! k)"
  shows "find P (rev (take i xs)) = Some (xs ! j)"
proof -
  have "find P (rev (take i xs)) \<noteq> None"
    using assms find_rev_take_None [of i xs P] by auto
  then obtain p where p: "find P (rev (take i xs)) = Some p" by auto
  from find_rev_take_Some [OF assms(1) p] obtain m where m: "m < i" "p = xs ! m" "P (xs ! m)"
    "\<forall>k. m < k \<and> k < i \<longrightarrow> \<not> P (xs ! k)" by auto
  have "m = j" using assms m by (metis linorder_neqE_nat)
  then show ?thesis using p m by simp
qed

lemma astype_returns:
  "\<forall>x\<in>set xs. \<not> isl (f x) \<Longrightarrow> astype f xs = Inr (map (\<lambda>x. projr (f x)) xs)"
proof (induction xs)
  case Nil
  then show ?case by simp
next
  case (Cons x xs)
  then obtain y where "f x = Inr y" by (cases "f x") auto
  then show ?case using Cons by simp
qed

lemma astype_Inr:
  "astype f xs = Inr ys \<Longrightarrow> (\<forall>x\<in>set xs. \<not> isl (f x)) \<and> ys = map (\<lambda>x. projr (f x)) xs"
proof (induction xs arbitrary: ys)
  case Nil
  then show ?case by simp
next
  case (Cons x xs)
  then obtain y zs where "f x = Inr y" "astype f xs = Inr zs" "ys = y # zs"
    by (auto split: sum.splits)
  then show ?case using Cons.IH [of zs] by simp
qed


lemma zip_columns:
  "zip rows (zip (map f1 rows) (zip (map f2 rows) (zip (map f3 rows) (map f4 rows)))) =
     map (\<lambda>r. (r, f1 r, f2 r, f3 r, f4 r)) rows"
  by (induction rows) simp_all

lemma text_route_number_cast_row: "text_route_number (cast_row I P r) = text_route_number r"
  by (simp add: cast_row_def with_cells_def)

lemma prepare_data_Int64:
  assumes "\<forall>r\<in>set rows. \<forall>c\<in>set (counter_cells r). \<not> isl (I c)"
  shows "prepare_data I P U rows =
     (case astype U (map (\<lambda>r. str_remove route_prefix (text_route_number r)) rows) of
        Inl e \<Rightarrow> Inl e
      | Inr ns \<Rightarrow> Inr (map inputs (map fst (sort_key sort_column (zip (map (cast_row I P) rows) ns)))))"
proof -
  have c1: "astype I (map text_route_number_count rows) =
      Inr (map (\<lambda>r. projr (I (text_route_number_count r))) rows)"
    using assms astype_returns [of "map text_route_number_count rows" I]
    by (simp add: counter_cells_def comp_def)
  have c2: "astype I (map route_month rows) = Inr (map (\<lambda>r. projr (I (route_month r))) rows)"
    using assms astype_returns [of "map route_month rows" I]
    by (simp add: counter_cells_def comp_def)
  have c3: "astype I (map route_year rows) = Inr (map (\<lambda>r. projr (I (route_year r))) rows)"
    using assms astype_returns [of "map route_year rows" I]
    by (simp add: counter_cells_def comp_def)
  have c4: "astype I (map teu rows) = Inr (map (\<lambda>r. projr (I (teu r))) rows)"
    using assms astype_returns [of "map teu rows" I]
    by (simp add: counter_cells_def comp_def)
  have df1: "map (\<lambda>(r, c, m, y, t). with_cells r (P (route_min_date r)) c m y t)
      (zip rows (zip (map (\<lambda>r. projr (I (text_route_number_count r))) rows)
        (zip (map (\<lambda>r. projr (I (route_month r))) rows)
          (zip (map (\<lambda>r. projr (I (route_year r))) rows) (map (\<lambda>r. projr (I (teu r))) rows)))))
      = map (cast_row I P) rows"
    by (simp only: zip_columns) (simp add: cast_row_def)
  have ids: "map (\<lambda>r. str_remove route_prefix (text_route_number r)) (map (cast_row I P) rows) =
      map (\<lambda>r. str_remove route_prefix (text_route_number r)) rows"
    by (simp add: text_route_number_cast_row)
  show ?thesis
    unfolding prepare_data_def c1 c2 c3 c4 sum.case Let_def df1 ids
    by (cases "astype U (map (\<lambda>r. str_remove route_prefix (text_route_number r)) rows)")
      (simp_all add: inputs_def [abs_def])
qed

lemma prepare_data_returns:
  assumes "\<forall>r\<in>set rows. \<forall>c\<in>set (counter_cells r). \<not> isl (I c)"
    and "\<forall>r\<in>set rows. \<not> isl (U (str_remove route_prefix (text_route_number r)))"
  shows "prepare_data I P U rows =
     Inr (map inputs (map fst (sort_key sort_column (zip (map (cast_row I P) rows)
        (map (\<lambda>r. projr (U (str_remove route_prefix (text_route_number r)))) rows)))))"
proof -
  have "astype U (map (\<lambda>r. str_remove route_prefix (text_route_number r)) rows) =
      Inr (map (\<lambda>r. projr (U (str_remove route_prefix (text_route_number r)))) rows)"
    using assms(2) astype_returns [of "map (\<lambda>r. str_remove route_prefix (text_route_number r)) rows" U]
    by (simp add: comp_def)
  then show ?thesis by (simp add: prepare_data_Int64 [OF assms(1)])
qed

lemma prepare_data_Inr_Int64:
  assumes "prepare_data I P U rows = Inr df"
  shows "\<forall>r\<in>set rows. \<forall>c\<in>set (counter_cells r). \<not> isl (I c)"
proof -
  from assms obtain c1 c2 c3 c4 where
    "astype I (map text_route_number_count rows) = Inr c1"
    "astype I (map route_month rows) = Inr c2"
    "astype I (map route_year rows) = Inr c3"
    "astype I (map teu rows) = Inr c4"
    unfolding prepare_data_def by (auto split: sum.splits)
  from this [THEN astype_Inr] show ?thesis by (simp add: counter_cells_def)
qed

lemma prepare_data_Inr_uint32:
  assumes "prepare_data I P U rows = Inr df"
  shows "\<forall>r\<in>set rows. \<not> isl (U (str_remove route_prefix (text_route_number r)))"
proof -
  from assms prepare_data_Int64 [OF prepare_data_Inr_Int64 [OF assms], of P U]
  obtain ns where "astype U (map (\<lambda>r. str_remove route_prefix (text_route_number r)) rows) = Inr ns"
    by (auto split: sum.splits)
  from astype_Inr [OF this] show ?thesis by simp
qed

lemma prepare_data_cases:
  assumes "prepare_data I P U rows = Inr df"
  obtains ns where "length ns = length rows"
    "df = map inputs (map fst (sort_key sort_column (zip (map (cast_row I P) rows) ns)))"
proof -
  let ?ns = "map (\<lambda>r. projr (U (str_remove route_prefix (text_route_number r)))) rows"
  have "prepare_data I P U rows =
      Inr (map inputs (map fst (sort_key sort_column (zip (map (cast_row I P) rows) ?ns))))"
    by (rule prepare_data_returns [OF prepare_data_Inr_Int64 [OF assms] prepare_data_Inr_uint32 [OF assms]])
  then have "df = map inputs (map fst (sort_key sort_column (zip (map (cast_row I P) rows) ?ns)))"
    using assms by simp
  moreover have "length ?ns = length rows" by simp
  ultimately show thesis using that by blast
qed

lemma prepare_data_length:
  assumes "prepare_data I P U rows = Inr df"
  shows "length df = length rows"
proof -
  from prepare_data_cases [OF assms] obtain ns where
    "length ns = length rows"
    "df = map inputs (map fst (sort_key sort_column (zip (map (cast_row I P) rows) ns)))"
    by blast
  then show ?thesis by simp
qed

lemma prepare_data_fresh:
  assumes "prepare_data I P U rows = Inr df" and "i < length df"
  shows "category_route (df ! i) = New_route"
    and "old_text_route_number (df ! i) = None"
    and "changed_field (df ! i) = None"
    and "old_value_field (df ! i) = None"
proof -
  from prepare_data_cases [OF assms(1)] obtain zs where df: "df = map inputs zs"
    by blast
  then have "df ! i = inputs (zs ! i)" using assms(2) by simp
  then show "category_route (df ! i) = New_route" "old_text_route_number (df ! i) = None"
    "changed_field (df ! i) = None" "old_value_field (df ! i) = None"
    by (simp_all add: inputs_def)
qed

lemma prepare_data_sorted:
  assumes "prepare_data I P U rows = Inr df"
  shows "sorted (map (\<lambda>r. date_rank (route_min_date r)) df)"
proof -
  from prepare_data_cases [OF assms] obtain ns where
    df: "df = map inputs (map fst (sort_key sort_column (zip (map (cast_row I P) rows) ns)))"
    by blast
  let ?zs = "sort_key sort_column (zip (map (cast_row I P) rows) ns)"
  have "sorted (map sort_column ?zs)" by (rule sorted_sort_key)
  then have "sorted_wrt (\<lambda>x y. sort_column x \<le> sort_column y) ?zs"
    by (simp add: sorted_map)
  then have "sorted_wrt (\<lambda>x y. date_rank (route_min_date (fst x)) \<le> date_rank (route_min_date (fst y))) ?zs"
    by (rule sorted_wrt_mono_rel [rotated]) (auto simp: sort_column_def)
  moreover have "route_min_date (inputs r) = route_min_date r" for r
    by (simp add: inputs_def)
  ultimately show ?thesis by (simp add: df sorted_map comp_def)
qed

lemma prepare_data_rows:
  assumes "prepare_data I P U rows = Inr df"
  shows "mset df = mset (map (\<lambda>r. inputs (cast_row I P r)) rows)"
proof -
  from prepare_data_cases [OF assms] obtain ns where
    len: "length ns = length rows"
    and df: "df = map inputs (map fst (sort_key sort_column (zip (map (cast_row I P) rows) ns)))"
    by blast
  have "mset df = mset (map (\<lambda>z. inputs (fst z)) (sort_key sort_column (zip (map (cast_row I P) rows) ns)))"
    by (simp add: df comp_def)
  also have "\<dots> = image_mset (\<lambda>z. inputs (fst z)) (mset (zip (map (cast_row I P) rows) ns))"
    by (simp only: mset_map mset_sort)
  also have "\<dots> = mset (map inputs (map fst (zip (map (cast_row I P) rows) ns)))"
    by (simp add: comp_def)
  also have "map fst (zip (map (cast_row I P) rows) ns) = map (cast_row I P) rows"
    using len by (simp add: map_fst_zip)
  also have "map inputs (map (cast_row I P) rows) = map (\<lambda>r. inputs (cast_row I P r)) rows"
    by simp
  finally show ?thesis .
qed

lemma prepare_data_mset:
  assumes "prepare_data I P U rows = Inr df"
  shows "mset (map (\<lambda>r. (text_route_number r, route_min_date r)) df) =
         mset (map (\<lambda>r. (text_route_number r, P (route_min_date r))) rows)"
proof -
  let ?g = "\<lambda>r::prepared_route. (text_route_number r, route_min_date r)"
  have g: "?g (inputs (cast_row I P r)) = (text_route_number r, P (route_min_date r))" for r
    by (simp add: inputs_def cast_row_def with_cells_def)
  have "mset (map ?g df) = image_mset ?g (mset df)" by simp
  also have "\<dots> = image_mset ?g (mset (map (\<lambda>r. inputs (cast_row I P r)) rows))"
    by (simp only: prepare_data_rows [OF assms])
  also have "\<dots> = mset (map (\<lambda>r. ?g (inputs (cast_row I P r))) rows)"
    by (simp add: multiset.map_comp comp_def)
  finally show ?thesis by (simp only: g)
qed


lemma inputs_classify: "inputs (classify df i) = inputs (df ! i)"
  by (simp add: classify_def inputs_scan_row)

lemma set_rev_take_match:
  "i \<le> length df \<Longrightarrow>
     (\<exists>p\<in>set (rev (take i df)). candidate c p \<and> same_corridor c p)
       \<longleftrightarrow> (\<exists>j<i. candidate c (df ! j) \<and> same_corridor c (df ! j))"
  using set_rev_take [of i df] by (auto simp del: set_rev)

lemma classify_closed:
  assumes "0 < i" and "i < length df"
  shows "classify df i =
     (if \<exists>j<i. candidate (df ! i) (df ! j) \<and> same_corridor (df ! i) (df ! j)
      then (provenance (df ! i) (rev (take i df)))\<lparr>category_route := Route_change\<rparr>
      else provenance (df ! i) (rev (take i df)))"
proof -
  have "i \<le> length df" using assms by simp
  from set_rev_take_match [OF this] show ?thesis
    using assms by (simp only: classify_def scan_row_closed) simp
qed

lemma provenance_set:
  "old_text_route_number c \<noteq> None \<Longrightarrow> provenance c ps = c"
  unfolding provenance_def by (rule if_not_P)

lemma provenance_idem: "provenance (provenance c ps) ps = provenance c ps"
proof (cases "old_text_route_number c = None")
  case False
  then have "provenance c ps = c" by (rule provenance_set)
  then show ?thesis by simp
next
  case True
  show ?thesis
  proof (cases "find (candidate c) ps")
    case None
    then show ?thesis using True by (simp add: provenance_def)
  next
    case (Some p)
    then have "provenance c ps = with_provenance c p" using True by (simp add: provenance_def)
    moreover have "old_text_route_number (with_provenance c p) \<noteq> None"
      by (simp add: with_provenance_def)
    ultimately show ?thesis using provenance_set [of "with_provenance c p" ps] by simp
  qed
qed

lemma candidate_category: "candidate (c\<lparr>category_route := x\<rparr>) = candidate c"
  using candidate_cong [OF inputs_category refl] by blast

lemma key_value_category: "key_value k (c\<lparr>category_route := x\<rparr>) = key_value k c"
  by (cases k) simp_all

lemma with_provenance_category:
  "with_provenance (c\<lparr>category_route := x\<rparr>) p = (with_provenance c p)\<lparr>category_route := x\<rparr>"
  by (simp add: with_provenance_def differing_def key_value_category)

lemma provenance_category:
  "provenance (c\<lparr>category_route := x\<rparr>) ps = (provenance c ps)\<lparr>category_route := x\<rparr>"
proof (cases "find (candidate c) ps")
  case None
  then show ?thesis by (simp add: provenance_def candidate_category)
next
  case (Some p)
  then show ?thesis by (simp add: provenance_def candidate_category with_provenance_category)
qed

lemma scan_row_idem: "scan_row (scan_row c ps) ps = scan_row c ps"
proof -
  let ?c = "scan_row c ps"
  have inp: "inputs ?c = inputs c" by (rule inputs_scan_row)
  have ex: "(\<exists>p\<in>set ps. candidate ?c p \<and> same_corridor ?c p)
      \<longleftrightarrow> (\<exists>p\<in>set ps. candidate c p \<and> same_corridor c p)"
    using candidate_cong [OF inp refl] same_corridor_cong [OF inp refl] by simp
  show ?thesis
  proof (cases "\<exists>p\<in>set ps. candidate c p \<and> same_corridor c p")
    case True
    then have c: "?c = (provenance c ps)\<lparr>category_route := Route_change\<rparr>"
      by (simp only: scan_row_closed if_True)
    have "scan_row ?c ps = (provenance ?c ps)\<lparr>category_route := Route_change\<rparr>"
      using True ex by (simp only: scan_row_closed [of ?c] if_True)
    also have "\<dots> = ?c"
      by (simp only: c provenance_category provenance_idem) simp
    finally show ?thesis .
  next
    case False
    then have c: "?c = provenance c ps"
      by (simp only: scan_row_closed if_False)
    have "scan_row ?c ps = provenance ?c ps"
      using False ex by (simp only: scan_row_closed [of ?c] if_False)
    also have "\<dots> = ?c" by (simp only: c provenance_idem)
    finally show ?thesis .
  qed
qed

lemma classify_idem:
  assumes "i < length df"
  shows "classify (map (classify df) [0..<length df]) i = classify df i"
proof (cases "i = 0")
  case True
  then show ?thesis using assms by (simp add: classify_def)
next
  case False
  let ?out = "map (classify df) [0..<length df]"
  have "map inputs (take i ?out) = map inputs (take i df)"
    using assms by (intro nth_equalityI) (simp_all add: inputs_classify)
  then have "rev (map inputs (take i ?out)) = rev (map inputs (take i df))" by simp
  then have "map inputs (rev (take i ?out)) = map inputs (rev (take i df))"
    by (simp add: rev_map)
  from scan_row_cong [OF this]
  have "scan_row (?out ! i) (rev (take i ?out)) = scan_row (?out ! i) (rev (take i df))" .
  moreover have "?out ! i = scan_row (df ! i) (rev (take i df))"
    using assms False by (simp add: classify_def)
  ultimately show ?thesis using False by (simp add: classify_def scan_row_idem)
qed

lemma classify_keeps_provenance:
  assumes "i < length df" and "old_text_route_number (df ! i) \<noteq> None"
  shows "old_text_route_number (classify df i) = old_text_route_number (df ! i)"
    and "changed_field (classify df i) = changed_field (df ! i)"
    and "old_value_field (classify df i) = old_value_field (df ! i)"
proof -
  let ?ps = "rev (take i df)"
  have p: "provenance (df ! i) ?ps = df ! i" using assms(2) by (rule provenance_set)
  have "classify df i = df ! i \<or> classify df i = (df ! i)\<lparr>category_route := Route_change\<rparr>"
    by (simp add: classify_def scan_row_closed p)
  then show "old_text_route_number (classify df i) = old_text_route_number (df ! i)"
    and "changed_field (classify df i) = changed_field (df ! i)"
    and "old_value_field (classify df i) = old_value_field (df ! i)"
    by (elim disjE; simp)+
qed

lemma category_with_provenance: "category_route (with_provenance c p) = category_route c"
  by (simp add: with_provenance_def)

lemma category_provenance: "category_route (provenance c ps) = category_route c"
  by (simp add: provenance_def category_with_provenance split: option.splits)

lemma classify_category:
  assumes "i < length df"
  shows "category_route (classify df i) =
     (if 0 < i \<and> (\<exists>j<i. candidate (df ! i) (df ! j) \<and> same_corridor (df ! i) (df ! j))
      then Route_change else category_route (df ! i))"
proof (cases "0 < i")
  case False
  then show ?thesis by (simp add: classify_def)
next
  case True
  let ?E = "\<exists>j<i. candidate (df ! i) (df ! j) \<and> same_corridor (df ! i) (df ! j)"
  show ?thesis
  proof (cases ?E)
    case yes: True
    then have "classify df i = (provenance (df ! i) (rev (take i df)))\<lparr>category_route := Route_change\<rparr>"
      by (simp only: classify_closed [OF True assms] if_True)
    then show ?thesis using True yes by simp
  next
    case no: False
    then have "classify df i = provenance (df ! i) (rev (take i df))"
      by (simp only: classify_closed [OF True assms] if_False)
    moreover have "(0 < i \<and> ?E) = False" using no by blast
    ultimately show ?thesis by (simp only: if_False category_provenance)
  qed
qed

lemma classify_first: "classify df 0 = df ! 0"
  by (simp add: classify_def)

lemma classify_provenance:
  assumes "0 < i" and "i < length df"
  shows "old_text_route_number (classify df i) = old_text_route_number (provenance (df ! i) (rev (take i df)))"
    and "changed_field (classify df i) = changed_field (provenance (df ! i) (rev (take i df)))"
    and "old_value_field (classify df i) = old_value_field (provenance (df ! i) (rev (take i df)))"
  by (simp_all add: classify_closed [OF assms])

lemma classify_no_candidate:
  assumes "0 < i" and "i < length df" and "\<forall>j<i. \<not> candidate (df ! i) (df ! j)"
  shows "classify df i = df ! i"
proof -
  have le: "i \<le> length df" using assms by simp
  have "find (candidate (df ! i)) (rev (take i df)) = None"
    using find_rev_take_None [OF le, of "candidate (df ! i)"] assms(3) by simp
  then have p: "provenance (df ! i) (rev (take i df)) = df ! i"
    by (simp add: provenance_def)
  have "\<not> (\<exists>j<i. candidate (df ! i) (df ! j) \<and> same_corridor (df ! i) (df ! j))"
    using assms(3) by blast
  then show ?thesis by (simp only: classify_closed [OF assms(1,2)] if_False p)
qed

lemma classify_nearest_candidate:
  assumes "0 < i" and "i < length df" and "old_text_route_number (df ! i) = None"
    and "j < i" and "candidate (df ! i) (df ! j)"
    and "\<forall>k. j < k \<and> k < i \<longrightarrow> \<not> candidate (df ! i) (df ! k)"
  shows "old_text_route_number (classify df i) = Some (text_route_number (df ! j))"
    and "changed_field (classify df i) =
           Some (join '', '' (map column_name (differing (df ! i) (df ! j))))"
    and "old_value_field (classify df i) =
           Some (join '', '' (map (\<lambda>k. old_value_mapping k (df ! j)) (differing (df ! i) (df ! j))))"
proof -
  have le: "i \<le> length df" using assms by simp
  have "find (candidate (df ! i)) (rev (take i df)) = Some (df ! j)"
    using find_rev_take_nearest [OF le assms(4), of "candidate (df ! i)"] assms(5,6) by simp
  then have p: "provenance (df ! i) (rev (take i df)) = with_provenance (df ! i) (df ! j)"
    using assms(3) by (simp add: provenance_def)
  show "old_text_route_number (classify df i) = Some (text_route_number (df ! j))"
    by (simp add: classify_provenance [OF assms(1,2)] p with_provenance_def)
  show "changed_field (classify df i) =
           Some (join '', '' (map column_name (differing (df ! i) (df ! j))))"
    by (simp add: classify_provenance [OF assms(1,2)] p with_provenance_def)
  show "old_value_field (classify df i) =
           Some (join '', '' (map (\<lambda>k. old_value_mapping k (df ! j)) (differing (df ! i) (df ! j))))"
    by (simp add: classify_provenance [OF assms(1,2)] p with_provenance_def)
qed

lemma nearest_candidate_exists:
  assumes "j < (i::nat)" and "P j"
  shows "\<exists>m. j \<le> m \<and> m < i \<and> P m \<and> (\<forall>k. m < k \<and> k < i \<longrightarrow> \<not> P k)"
proof -
  let ?S = "{m. m < i \<and> P m}"
  have fin: "finite ?S" by (rule finite_subset [of _ "{..<i}"]) auto
  have ne: "?S \<noteq> {}" using assms by blast
  let ?m = "Max ?S"
  have "?m \<in> ?S" using Max_in [OF fin ne] .
  moreover have "j \<le> ?m" using Max_ge [OF fin, of j] assms by simp
  moreover have "\<not> P k" if "?m < k" "k < i" for k
  proof
    assume "P k"
    then have "k \<in> ?S" using that by simp
    then have "k \<le> ?m" by (rule Max_ge [OF fin])
    then show False using that by simp
  qed
  ultimately show ?thesis by blast
qed

lemma classify_inputs:
  "route_min_date (classify df i) = route_min_date (df ! i)"
  "text_route_number (classify df i) = text_route_number (df ! i)"
  "type_of_transportation (classify df i) = type_of_transportation (df ! i)"
  "key_value k (classify df i) = key_value k (df ! i)"
  using inputs_fields [OF inputs_classify [of df i]] by simp_all

lemma matches_and_differing:
  "sum_list (map (matching_values c p) key_columns) + length (differing c p) = 5"
  by (simp add: key_columns_def differing_def matching_values_def)

lemma candidate_differing: "candidate c p \<Longrightarrow> length (differing c p) \<le> 2"
  using matches_and_differing [of c p]
  by (simp add: candidate_def MIN_MATCHING_KEY_THRESHOLD_def)

lemma classify_fresh_cases:
  assumes "0 < i" and "i < length df" and "old_text_route_number (df ! i) = None"
  shows "(\<forall>j<i. \<not> candidate (df ! i) (df ! j)) \<and> classify df i = df ! i
    \<or> (\<exists>j<i. candidate (df ! i) (df ! j)
          \<and> (\<forall>k. j < k \<and> k < i \<longrightarrow> \<not> candidate (df ! i) (df ! k))
          \<and> old_text_route_number (classify df i) = Some (text_route_number (df ! j))
          \<and> changed_field (classify df i) =
               Some (join '', '' (map column_name (differing (df ! i) (df ! j))))
          \<and> old_value_field (classify df i) =
               Some (join '', '' (map (\<lambda>k. old_value_mapping k (df ! j)) (differing (df ! i) (df ! j)))))"
proof (cases "\<exists>j<i. candidate (df ! i) (df ! j)")
  case False
  then have "\<forall>j<i. \<not> candidate (df ! i) (df ! j)" by blast
  then show ?thesis using classify_no_candidate [OF assms(1,2)] by blast
next
  case True
  then obtain j where "j < i" "candidate (df ! i) (df ! j)" by blast
  from nearest_candidate_exists [of j i "\<lambda>j. candidate (df ! i) (df ! j)", OF this]
  obtain m where m: "m < i" "candidate (df ! i) (df ! m)"
    "\<forall>k. m < k \<and> k < i \<longrightarrow> \<not> candidate (df ! i) (df ! k)" by blast
  from classify_nearest_candidate [OF assms m] m show ?thesis by blast
qed

lemma scan_row_stops:
  "candidate c p \<Longrightarrow> same_corridor c p \<Longrightarrow>
     scan_row c (qs @ p # rest) = scan_row c (qs @ [p])"
proof (induction qs arbitrary: c)
  case Nil
  then show ?case by simp
next
  case (Cons q qs)
  have "candidate (compare_row c q) p" "same_corridor (compare_row c q) p"
    using Cons.prems by (simp_all add: match_compare_row)
  from Cons.IH [OF this] show ?case by simp
qed

lemma rev_take_split:
  assumes "j < i" and "i \<le> length df"
  shows "rev (take i df) = rev (drop (Suc j) (take i df)) @ df ! j # rev (take j df)"
proof -
  have "take i df = take j (take i df) @ drop j (take i df)"
    by (rule append_take_drop_id [symmetric])
  moreover have "take j (take i df) = take j df" using assms by (simp add: min_def)
  moreover have "drop j (take i df) = (take i df) ! j # drop (Suc j) (take i df)"
    using assms by (intro Cons_nth_drop_Suc [symmetric]) simp
  moreover have "(take i df) ! j = df ! j" using assms by simp
  ultimately have "take i df = take j df @ df ! j # drop (Suc j) (take i df)" by simp
  then have "rev (take i df) = rev (take j df @ df ! j # drop (Suc j) (take i df))" by simp
  then show ?thesis by simp
qed

lemma classify_stops:
  assumes "j < i" and "i < length df"
    and "candidate (df ! i) (df ! j)" and "same_corridor (df ! i) (df ! j)"
    and "length df2 = length df" and "\<forall>k. j \<le> k \<and> k < length df \<longrightarrow> df2 ! k = df ! k"
  shows "classify df2 i = classify df i"
proof -
  have le: "i \<le> length df" "i \<le> length df2" using assms by simp_all
  have i: "df2 ! i = df ! i" and j: "df2 ! j = df ! j" using assms by simp_all
  have d: "drop (Suc j) (take i df2) = drop (Suc j) (take i df)"
    using assms by (intro nth_equalityI) simp_all
  have "scan_row (df ! i) (rev (take i df)) =
      scan_row (df ! i) (rev (drop (Suc j) (take i df)) @ [df ! j])"
    using scan_row_stops [OF assms(3,4)] rev_take_split [OF assms(1) le(1)] by simp
  moreover have "scan_row (df ! i) (rev (take i df2)) =
      scan_row (df ! i) (rev (drop (Suc j) (take i df)) @ [df ! j])"
    using scan_row_stops [OF assms(3,4)] rev_take_split [OF assms(1) le(2)] d j by simp
  ultimately show ?thesis using assms(1) i by (simp add: classify_def)
qed

lemma split_comma_sep_free: "sep_free x \<Longrightarrow> split_comma x = [x]"
  by (induction x rule: sep_free.induct) auto

lemma split_comma_append:
  "sep_free x \<Longrightarrow> split_comma (x @ '', '' @ rest) = x # split_comma rest"
proof (induction x rule: sep_free.induct)
  case 1
  then show ?case by simp
next
  case (2 c)
  then show ?case by (cases rest) auto
next
  case (3 c d cs)
  then show ?case by auto
qed

lemma split_comma_join:
  "\<forall>x\<in>set xs. sep_free x \<Longrightarrow> xs \<noteq> [] \<Longrightarrow> split_comma (join '', '' xs) = xs"
proof (induction "'', ''" xs rule: join.induct)
  case 1
  then show ?case by simp
next
  case (2 x)
  then show ?case by (simp add: split_comma_sep_free)
next
  case (3 x y ys)
  then show ?case using split_comma_append [of x "join '', '' (y # ys)"] by simp
qed

lemma length_split_comma_join:
  assumes "\<forall>x\<in>set xs. sep_free x"
  shows "length (split_comma (join '', '' xs)) = (if xs = [] then 1 else length xs)"
  using assms split_comma_join [of xs] by (cases "xs = []") simp_all

lemma sep_free_column_name: "sep_free (column_name k)"
  by (cases k) simp_all

section \<open>The examples, evaluated\<close>

lemmas parser_defs =
  iso_date_def decimal_def digit_of_def days_from_civil_def days_in_month_def
  decimal_uint32_def route_prefix_def

lemmas classifier_defs =
  analyze_routes_def upt_conv_Cons compare_and_update_routes_def Let_def
  matching_values_def key_columns_def MIN_MATCHING_KEY_THRESHOLD_def

lemma example_dates:
  "iso_date ''2024-01-01'' = Some 19723"
  "iso_date ''2024-02-01'' = Some 19754"
  "iso_date ''2024-03-01'' = Some 19783"
  "iso_date ''n/a'' = None"
  by (simp_all add: parser_defs)

lemma example_numbers:
  "decimal_uint32 (str_remove route_prefix (route_prefix @ ''1'')) = Inr 1"
  "decimal_uint32 (str_remove route_prefix (route_prefix @ ''2'')) = Inr 2"
  "decimal_uint32 (str_remove route_prefix (route_prefix @ ''3'')) = Inr 3"
  "decimal_uint32 (str_remove route_prefix (route_prefix @ ''abc'')) = Inl ValueError"
  "decimal_uint32 (str_remove route_prefix (route_prefix @ ''4294967296'')) = Inl OverflowError"
  by (simp_all add: parser_defs)

lemma example_counter:
  "decimal_Int64 ''1'' = Inr (Some 1)"
  "decimal_Int64 ''x'' = Inl ValueError"
  by (simp_all add: parser_defs decimal_Int64_def)

lemma prepare_example: "prepare_data decimal_Int64 iso_date decimal_uint32 example_rows = Inr example_df"
  by (simp add: prepare_data_def example_rows_def example_df_def example_route_def
      with_cells_def example_dates example_numbers example_counter sort_column_def)

lemma analyze_example: "analyze_routes example_df = Inr example_out"
  by (simp add: example_df_def example_out_def example_route_def classifier_defs)

section \<open>The claims\<close>

text \<open>
  C7. Running \<open>analyze_routes\<close> on any frame returns a frame on which a second run
  changes nothing; and a row whose old_text_route_number is already set keeps its three
  provenance cells.
\<close>

theorem analyze_routes_idempotent:
  "\<exists>out. analyze_routes df = Inr out \<and> analyze_routes out = Inr out
     \<and> (\<forall>i<length df. old_text_route_number (df ! i) \<noteq> None \<longrightarrow>
          old_text_route_number (out ! i) = old_text_route_number (df ! i)
          \<and> changed_field (out ! i) = changed_field (df ! i)
          \<and> old_value_field (out ! i) = old_value_field (df ! i))"
proof -
  let ?out = "map (classify df) [0..<length df]"
  have 1: "analyze_routes df = Inr ?out" by (rule analyze_routes_classify)
  have "map (classify ?out) [0..<length ?out] = ?out"
    by (intro nth_equalityI) (simp_all add: classify_idem)
  then have 2: "analyze_routes ?out = Inr ?out"
    using analyze_routes_classify [of ?out] by simp
  have 3: "\<forall>i<length df. old_text_route_number (df ! i) \<noteq> None \<longrightarrow>
          old_text_route_number (?out ! i) = old_text_route_number (df ! i)
          \<and> changed_field (?out ! i) = changed_field (df ! i)
          \<and> old_value_field (?out ! i) = old_value_field (df ! i)"
    using classify_keeps_provenance by simp
  show ?thesis using 1 2 3 by blast
qed

theorem analyze_routes_idempotent_witness:
  "2 < length example_out \<and> old_text_route_number (example_out ! 2) \<noteq> None
   \<and> (\<exists>out. analyze_routes example_out = Inr out \<and> analyze_routes out = Inr out
        \<and> old_text_route_number (out ! 2) = old_text_route_number (example_out ! 2)
        \<and> changed_field (out ! 2) = changed_field (example_out ! 2)
        \<and> old_value_field (out ! 2) = old_value_field (example_out ! 2))"
proof -
  have h: "2 < length example_out" "old_text_route_number (example_out ! 2) \<noteq> None"
    by (simp_all add: example_out_def)
  from analyze_routes_idempotent [of example_out] h show ?thesis by blast
qed

text \<open>
  C8. After \<open>prepare_data\<close>, the first record of a non-empty frame is the one with the
  earliest date (NaT counts as latest), and \<open>analyze_routes\<close> leaves it as it is:
  category New_route, the three provenance cells empty.
\<close>

theorem first_record_stays_new:
  assumes "prepare_data to_Int64 to_datetime to_uint32 rows = Inr df" and "rows \<noteq> []"
  shows "\<exists>out. analyze_routes df = Inr out \<and> out ! 0 = df ! 0
     \<and> category_route (out ! 0) = New_route
     \<and> old_text_route_number (out ! 0) = None
     \<and> changed_field (out ! 0) = None
     \<and> old_value_field (out ! 0) = None
     \<and> (\<forall>k<length out. date_rank (route_min_date (out ! 0)) \<le> date_rank (route_min_date (out ! k)))"
proof -
  let ?out = "map (classify df) [0..<length df]"
  have len: "0 < length df" using assms prepare_data_length [OF assms(1)] by simp
  have run: "analyze_routes df = Inr ?out" by (rule analyze_routes_classify)
  have first: "?out ! 0 = df ! 0" using len by (simp add: classify_first)
  have srt: "sorted (map (\<lambda>r. date_rank (route_min_date r)) df)"
    by (rule prepare_data_sorted [OF assms(1)])
  have "date_rank (route_min_date (?out ! 0)) \<le> date_rank (route_min_date (?out ! k))"
    if "k < length ?out" for k
  proof -
    have k: "k < length df" using that by simp
    have "map (\<lambda>r. date_rank (route_min_date r)) df ! 0 \<le> map (\<lambda>r. date_rank (route_min_date r)) df ! k"
      using srt k by (intro sorted_nth_mono) simp_all
    then show ?thesis using k len by (simp add: classify_inputs)
  qed
  then show ?thesis
    using run first prepare_data_fresh [OF assms(1) len] by (intro exI [of _ ?out]) simp
qed

theorem first_record_stays_new_witness:
  "prepare_data decimal_Int64 iso_date decimal_uint32 example_rows = Inr example_df \<and> example_rows \<noteq> []
   \<and> (\<exists>out. analyze_routes example_df = Inr out \<and> out ! 0 = example_df ! 0
        \<and> category_route (out ! 0) = New_route
        \<and> old_text_route_number (out ! 0) = None
        \<and> changed_field (out ! 0) = None
        \<and> old_value_field (out ! 0) = None
        \<and> (\<forall>k<length out. date_rank (route_min_date (out ! 0)) \<le> date_rank (route_min_date (out ! k))))"
proof -
  have ne: "example_rows \<noteq> []" by (simp add: example_rows_def)
  from first_record_stays_new [OF prepare_example ne] prepare_example ne
  show ?thesis by blast
qed

text \<open>
  C1, as the code has it. Two rows that differ in the departure or in the destination
  code never make \<open>compare_and_update_routes\<close> answer True, and a prepared row gets the
  category Route_change only if an earlier row with another date, the same transport
  type, at least three equal key columns and the same two station codes exists. The
  claim about old_text_route_number does not hold: the cell is written before the
  station codes are compared.
\<close>

theorem corridor_change_is_no_match:
  assumes "prepare_data to_Int64 to_datetime to_uint32 rows = Inr df"
  shows "(\<forall>d i j. i < length d \<and> j < length d \<and> \<not> same_corridor (d ! i) (d ! j) \<longrightarrow>
            (\<exists>d'. compare_and_update_routes d i j = Inr (d', False)))
     \<and> (\<exists>out. analyze_routes df = Inr out
          \<and> (\<forall>i<length df. category_route (out ! i) = Route_change \<longrightarrow>
                (\<exists>j<i. candidate (df ! i) (df ! j) \<and> same_corridor (df ! i) (df ! j))))"
proof -
  let ?out = "map (classify df) [0..<length df]"
  have 1: "\<exists>d'. compare_and_update_routes d i j = Inr (d', False)"
    if "i < length d" "j < length d" "\<not> same_corridor (d ! i) (d ! j)" for d i j
    using compare_and_update_routes_row [OF that(1,2)] that(3) by simp
  have 2: "\<exists>j<i. candidate (df ! i) (df ! j) \<and> same_corridor (df ! i) (df ! j)"
    if i: "i < length df" and c: "category_route (?out ! i) = Route_change" for i
  proof (rule ccontr)
    assume no: "\<not> (\<exists>j<i. candidate (df ! i) (df ! j) \<and> same_corridor (df ! i) (df ! j))"
    then have "(0 < i \<and> (\<exists>j<i. candidate (df ! i) (df ! j) \<and> same_corridor (df ! i) (df ! j))) = False"
      by blast
    then have "category_route (classify df i) = category_route (df ! i)"
      by (simp only: classify_category [OF i] if_False)
    then show False using c i prepare_data_fresh(1) [OF assms i] by simp
  qed
  have "analyze_routes df = Inr ?out" by (rule analyze_routes_classify)
  then show ?thesis using 1 2 by blast
qed

theorem corridor_change_is_no_match_witness:
  "prepare_data decimal_Int64 iso_date decimal_uint32 example_rows = Inr example_df
   \<and> 1 < length example_df \<and> 0 < length example_df
   \<and> \<not> same_corridor (example_df ! 1) (example_df ! 0)
   \<and> (\<exists>d'. compare_and_update_routes example_df 1 0 = Inr (d', False))
   \<and> (\<exists>out. analyze_routes example_df = Inr out \<and> category_route (out ! 2) = Route_change
        \<and> (\<exists>j<2. candidate (example_df ! 2) (example_df ! j)
                  \<and> same_corridor (example_df ! 2) (example_df ! j)))"
proof -
  have h: "1 < length example_df" "0 < length example_df" "2 < length example_df"
    "\<not> same_corridor (example_df ! 1) (example_df ! 0)"
    by (simp_all add: example_df_def example_route_def same_corridor_def)
  have c: "category_route (example_out ! 2) = Route_change"
    by (simp add: example_out_def)
  from corridor_change_is_no_match [OF prepare_example] obtain out where
    a: "\<forall>d i j. i < length d \<and> j < length d \<and> \<not> same_corridor (d ! i) (d ! j) \<longrightarrow>
            (\<exists>d'. compare_and_update_routes d i j = Inr (d', False))"
    and b: "analyze_routes example_df = Inr out"
    and d: "\<forall>i<length example_df. category_route (out ! i) = Route_change \<longrightarrow>
                (\<exists>j<i. candidate (example_df ! i) (example_df ! j)
                   \<and> same_corridor (example_df ! i) (example_df ! j))"
    by blast
  have out: "out = example_out" using b analyze_example by simp
  have "\<exists>d'. compare_and_update_routes example_df 1 0 = Inr (d', False)"
    using a h by blast
  moreover have "\<exists>j<2. candidate (example_df ! 2) (example_df ! j)
      \<and> same_corridor (example_df ! 2) (example_df ! j)"
    using d h(3) c out by blast
  ultimately show ?thesis using prepare_example h b c out by blast
qed

theorem corridor_link_counterexample:
  "prepare_data decimal_Int64 iso_date decimal_uint32 example_rows = Inr example_df
   \<and> analyze_routes example_df = Inr example_out
   \<and> departure_station_code_of_rf (example_out ! 1) \<noteq> departure_station_code_of_rf (example_out ! 0)
   \<and> old_text_route_number (example_out ! 1) = Some (text_route_number (example_out ! 0))"
  using prepare_example analyze_example by (simp add: example_out_def example_route_def)

text \<open>
  C2, as the code has it. Let \<open>j\<close> be the first row, scanning from \<open>i - 1\<close> down, that
  passes all four conditions for row \<open>i\<close> of a prepared frame. Then row \<open>i\<close> gets the
  category Route_change, and the rows before \<open>j\<close> play no part in the result for row
  \<open>i\<close> (the scan has stopped). old_text_route_number of row \<open>i\<close> is the route number of
  the first row \<open>m\<close> that passes the first three conditions: \<open>m\<close> is \<open>j\<close> or a nearer
  row with other station codes, so it is \<open>j\<close> when no nearer row passes the three.
\<close>

theorem first_match_sets_category:
  assumes "prepare_data to_Int64 to_datetime to_uint32 rows = Inr df"
    and "i < length df" and "j < i"
    and "candidate (df ! i) (df ! j)" and "same_corridor (df ! i) (df ! j)"
    and "\<forall>k. j < k \<and> k < i \<longrightarrow> \<not> (candidate (df ! i) (df ! k) \<and> same_corridor (df ! i) (df ! k))"
  shows "\<exists>out. analyze_routes df = Inr out
     \<and> category_route (out ! i) = Route_change
     \<and> (\<exists>m. j \<le> m \<and> m < i \<and> candidate (df ! i) (df ! m)
            \<and> (\<forall>k. m < k \<and> k < i \<longrightarrow> \<not> candidate (df ! i) (df ! k))
            \<and> (m = j \<or> \<not> same_corridor (df ! i) (df ! m))
            \<and> old_text_route_number (out ! i) = Some (text_route_number (df ! m)))
     \<and> ((\<forall>k. j < k \<and> k < i \<longrightarrow> \<not> candidate (df ! i) (df ! k)) \<longrightarrow>
            old_text_route_number (out ! i) = Some (text_route_number (df ! j)))
     \<and> (\<forall>df2. length df2 = length df \<and> (\<forall>k. j \<le> k \<and> k < length df \<longrightarrow> df2 ! k = df ! k) \<longrightarrow>
            (\<exists>out2. analyze_routes df2 = Inr out2 \<and> out2 ! i = out ! i))"
proof -
  let ?out = "map (classify df) [0..<length df]"
  have pos: "0 < i" using assms(3) by simp
  have old: "old_text_route_number (df ! i) = None"
    by (rule prepare_data_fresh(2) [OF assms(1,2)])
  have run: "analyze_routes df = Inr ?out" by (rule analyze_routes_classify)
  have oi: "?out ! i = classify df i" using assms(2) by simp
  have cat: "category_route (classify df i) = Route_change"
  proof -
    have "(0 < i \<and> (\<exists>j<i. candidate (df ! i) (df ! j) \<and> same_corridor (df ! i) (df ! j))) = True"
      using pos assms(3,4,5) by blast
    then show ?thesis by (simp only: classify_category [OF assms(2)] if_True)
  qed
  from nearest_candidate_exists [of j i "\<lambda>j. candidate (df ! i) (df ! j)", OF assms(3,4)]
  obtain m where m: "j \<le> m" "m < i" "candidate (df ! i) (df ! m)"
    "\<forall>k. m < k \<and> k < i \<longrightarrow> \<not> candidate (df ! i) (df ! k)" by blast
  have mj: "m = j \<or> \<not> same_corridor (df ! i) (df ! m)"
    using m assms(6) by (cases "m = j") auto
  have om: "old_text_route_number (classify df i) = Some (text_route_number (df ! m))"
    by (rule classify_nearest_candidate(1) [OF pos assms(2) old m(2,3,4)])
  have oj: "old_text_route_number (classify df i) = Some (text_route_number (df ! j))"
    if "\<forall>k. j < k \<and> k < i \<longrightarrow> \<not> candidate (df ! i) (df ! k)"
    by (rule classify_nearest_candidate(1) [OF pos assms(2) old assms(3,4) that])
  have stop: "\<exists>out2. analyze_routes df2 = Inr out2 \<and> out2 ! i = classify df i"
    if "length df2 = length df" "\<forall>k. j \<le> k \<and> k < length df \<longrightarrow> df2 ! k = df ! k" for df2
  proof -
    have "classify df2 i = classify df i"
      by (rule classify_stops [OF assms(3,2,4,5) that])
    then show ?thesis
      using that(1) assms(2) analyze_routes_classify [of df2] by simp
  qed
  have 3: "\<exists>m. j \<le> m \<and> m < i \<and> candidate (df ! i) (df ! m)
            \<and> (\<forall>k. m < k \<and> k < i \<longrightarrow> \<not> candidate (df ! i) (df ! k))
            \<and> (m = j \<or> \<not> same_corridor (df ! i) (df ! m))
            \<and> old_text_route_number (?out ! i) = Some (text_route_number (df ! m))"
    using m mj om oi by auto
  have 4: "(\<forall>k. j < k \<and> k < i \<longrightarrow> \<not> candidate (df ! i) (df ! k)) \<longrightarrow>
            old_text_route_number (?out ! i) = Some (text_route_number (df ! j))"
    using oj oi by simp
  have 5: "\<forall>df2. length df2 = length df \<and> (\<forall>k. j \<le> k \<and> k < length df \<longrightarrow> df2 ! k = df ! k) \<longrightarrow>
            (\<exists>out2. analyze_routes df2 = Inr out2 \<and> out2 ! i = ?out ! i)"
    using stop oi by simp
  have 2: "category_route (?out ! i) = Route_change" using cat oi by simp
  show ?thesis using run 2 3 4 5 by (intro exI [of _ ?out] conjI)
qed

lemma example_conditions:
  "candidate (example_df ! 2) (example_df ! 0)"
  "same_corridor (example_df ! 2) (example_df ! 0)"
  "candidate (example_df ! 2) (example_df ! 1)"
  "\<not> same_corridor (example_df ! 2) (example_df ! 1)"
  by (simp_all add: example_df_def example_route_def candidate_def same_corridor_def
      matching_values_def key_columns_def MIN_MATCHING_KEY_THRESHOLD_def)

theorem first_match_sets_category_witness:
  "prepare_data decimal_Int64 iso_date decimal_uint32 example_rows = Inr example_df
   \<and> 2 < length example_df \<and> (0::nat) < 2
   \<and> candidate (example_df ! 2) (example_df ! 0) \<and> same_corridor (example_df ! 2) (example_df ! 0)
   \<and> \<not> (candidate (example_df ! 2) (example_df ! 1) \<and> same_corridor (example_df ! 2) (example_df ! 1))
   \<and> (\<exists>out. analyze_routes example_df = Inr out \<and> category_route (out ! 2) = Route_change
        \<and> (\<exists>m. 0 \<le> m \<and> m < 2 \<and> candidate (example_df ! 2) (example_df ! m)
              \<and> old_text_route_number (out ! 2) = Some (text_route_number (example_df ! m))))"
proof -
  have len: "2 < length example_df" by (simp add: example_df_def)
  have first: "\<forall>k. 0 < k \<and> k < 2 \<longrightarrow>
      \<not> (candidate (example_df ! 2) (example_df ! k) \<and> same_corridor (example_df ! 2) (example_df ! k))"
  proof (intro allI impI)
    fix k :: nat
    assume "0 < k \<and> k < 2"
    then have "k = 1" by simp
    then show "\<not> (candidate (example_df ! 2) (example_df ! k) \<and> same_corridor (example_df ! 2) (example_df ! k))"
      using example_conditions(4) by simp
  qed
  have two: "(0::nat) < 2" by simp
  from first_match_sets_category [OF prepare_example len two example_conditions(1,2) first]
  have "\<exists>out. analyze_routes example_df = Inr out \<and> category_route (out ! 2) = Route_change
        \<and> (\<exists>m. 0 \<le> m \<and> m < 2 \<and> candidate (example_df ! 2) (example_df ! m)
              \<and> old_text_route_number (out ! 2) = Some (text_route_number (example_df ! m)))"
    by blast
  then show ?thesis
    using prepare_example len two example_conditions(1,2,4) by blast
qed

theorem first_match_predecessor_counterexample:
  "candidate (example_df ! 2) (example_df ! 0) \<and> same_corridor (example_df ! 2) (example_df ! 0)
   \<and> \<not> (candidate (example_df ! 2) (example_df ! 1) \<and> same_corridor (example_df ! 2) (example_df ! 1))
   \<and> prepare_data decimal_Int64 iso_date decimal_uint32 example_rows = Inr example_df
   \<and> analyze_routes example_df = Inr example_out
   \<and> category_route (example_out ! 2) = Route_change
   \<and> old_text_route_number (example_out ! 2) = Some (text_route_number (example_df ! 1))
   \<and> old_text_route_number (example_out ! 2) \<noteq> Some (text_route_number (example_df ! 0))"
  using example_conditions prepare_example analyze_example
  by (simp add: example_out_def example_df_def example_route_def)

lemma prepare_repeat: "prepare_data decimal_Int64 iso_date decimal_uint32 repeat_rows = Inr repeat_df"
  by (simp add: prepare_data_def repeat_rows_def repeat_df_def example_route_def
      with_cells_def example_dates example_numbers example_counter sort_column_def)

lemma analyze_repeat: "analyze_routes repeat_df = Inr repeat_out"
  by (simp add: repeat_df_def repeat_out_def example_route_def classifier_defs)

text \<open>
  C3, as the code has it. In the result for a prepared frame, a changed_field that is set
  is the list, joined with ', ', of exactly the key columns on which the row differs from
  an earlier row, in the order of \<open>key_columns\<close>; that earlier row is the one named in
  old_text_route_number. At most two columns are listed. The list can be empty also for
  a row of category Route_change.
\<close>

theorem changed_field_lists_differing_columns:
  assumes "prepare_data to_Int64 to_datetime to_uint32 rows = Inr df"
  shows "\<exists>out. analyze_routes df = Inr out
     \<and> (\<forall>i<length df. \<forall>s. changed_field (out ! i) = Some s \<longrightarrow>
          (\<exists>j<i. old_text_route_number (out ! i) = Some (text_route_number (df ! j))
             \<and> s = join '', '' (map column_name
                     (filter (\<lambda>k. key_value k (df ! i) \<noteq> key_value k (df ! j)) key_columns))
             \<and> length (filter (\<lambda>k. key_value k (df ! i) \<noteq> key_value k (df ! j)) key_columns) \<le> 2))"
proof -
  let ?out = "map (classify df) [0..<length df]"
  have run: "analyze_routes df = Inr ?out" by (rule analyze_routes_classify)
  have "\<exists>j<i. old_text_route_number (?out ! i) = Some (text_route_number (df ! j))
             \<and> s = join '', '' (map column_name
                     (filter (\<lambda>k. key_value k (df ! i) \<noteq> key_value k (df ! j)) key_columns))
             \<and> length (filter (\<lambda>k. key_value k (df ! i) \<noteq> key_value k (df ! j)) key_columns) \<le> 2"
    if i: "i < length df" and s: "changed_field (?out ! i) = Some s" for i s
  proof -
    have oi: "?out ! i = classify df i" using i by simp
    have fresh: "old_text_route_number (df ! i) = None" "changed_field (df ! i) = None"
      using prepare_data_fresh [OF assms i] by simp_all
    have pos: "0 < i"
    proof (rule ccontr)
      assume "\<not> 0 < i"
      then have "classify df i = df ! i" by (simp add: classify_first)
      then show False using s oi fresh by simp
    qed
    from classify_fresh_cases [OF pos i fresh(1)] show ?thesis
    proof
      assume "(\<forall>j<i. \<not> candidate (df ! i) (df ! j)) \<and> classify df i = df ! i"
      then show ?thesis using s oi fresh by simp
    next
      assume "\<exists>j<i. candidate (df ! i) (df ! j)
          \<and> (\<forall>k. j < k \<and> k < i \<longrightarrow> \<not> candidate (df ! i) (df ! k))
          \<and> old_text_route_number (classify df i) = Some (text_route_number (df ! j))
          \<and> changed_field (classify df i) =
               Some (join '', '' (map column_name (differing (df ! i) (df ! j))))
          \<and> old_value_field (classify df i) =
               Some (join '', '' (map (\<lambda>k. old_value_mapping k (df ! j)) (differing (df ! i) (df ! j))))"
      then obtain j where j: "j < i" "candidate (df ! i) (df ! j)"
        "old_text_route_number (classify df i) = Some (text_route_number (df ! j))"
        "changed_field (classify df i) =
               Some (join '', '' (map column_name (differing (df ! i) (df ! j))))"
        by blast
      have "length (differing (df ! i) (df ! j)) \<le> 2" by (rule candidate_differing [OF j(2)])
      then show ?thesis using j s oi by (intro exI [of _ j]) (simp add: differing_def)
    qed
  qed
  then show ?thesis using run by blast
qed

theorem changed_field_lists_differing_columns_witness:
  "prepare_data decimal_Int64 iso_date decimal_uint32 example_rows = Inr example_df
   \<and> (\<exists>out. analyze_routes example_df = Inr out
        \<and> 2 < length example_df
        \<and> changed_field (out ! 2) = Some ''departure_station_code_of_rf''
        \<and> (\<exists>j<2. old_text_route_number (out ! 2) = Some (text_route_number (example_df ! j))
              \<and> ''departure_station_code_of_rf'' = join '', '' (map column_name
                     (filter (\<lambda>k. key_value k (example_df ! 2) \<noteq> key_value k (example_df ! j)) key_columns))))"
proof -
  have len: "2 < length example_df" by (simp add: example_df_def)
  have cf: "changed_field (example_out ! 2) = Some ''departure_station_code_of_rf''"
    by (simp add: example_out_def)
  from changed_field_lists_differing_columns [OF prepare_example] obtain out where
    run: "analyze_routes example_df = Inr out"
    and all: "\<forall>i<length example_df. \<forall>s. changed_field (out ! i) = Some s \<longrightarrow>
          (\<exists>j<i. old_text_route_number (out ! i) = Some (text_route_number (example_df ! j))
             \<and> s = join '', '' (map column_name
                     (filter (\<lambda>k. key_value k (example_df ! i) \<noteq> key_value k (example_df ! j)) key_columns))
             \<and> length (filter (\<lambda>k. key_value k (example_df ! i) \<noteq> key_value k (example_df ! j)) key_columns) \<le> 2)"
    by blast
  have out: "out = example_out" using run analyze_example by simp
  have "\<exists>j<2. old_text_route_number (out ! 2) = Some (text_route_number (example_df ! j))
              \<and> ''departure_station_code_of_rf'' = join '', '' (map column_name
                     (filter (\<lambda>k. key_value k (example_df ! 2) \<noteq> key_value k (example_df ! j)) key_columns))"
    using all len cf out by blast
  then show ?thesis using prepare_example run len cf out by blast
qed

theorem changed_field_empty_counterexample:
  "prepare_data decimal_Int64 iso_date decimal_uint32 repeat_rows = Inr repeat_df
   \<and> analyze_routes repeat_df = Inr repeat_out
   \<and> category_route (repeat_out ! 1) = Route_change
   \<and> changed_field (repeat_out ! 1) = Some []"
  using prepare_repeat analyze_repeat by (simp add: repeat_out_def)

lemma prepare_comma: "prepare_data decimal_Int64 iso_date decimal_uint32 comma_rows = Inr comma_df"
  by (simp add: prepare_data_def comma_rows_def comma_df_def example_route_def
      with_cells_def example_dates example_numbers example_counter sort_column_def)

lemma analyze_comma: "analyze_routes comma_df = Inr comma_out"
  by (simp add: comma_df_def comma_out_def example_route_def classifier_defs)

text \<open>
  C10, as the code has it. In the result for a prepared frame the three provenance cells
  of a row are all empty or all set. When set, they come from one earlier row \<open>j\<close> and
  one list \<open>ks\<close> of key columns: changed_field is the names of \<open>ks\<close> and
  old_value_field the display values of row \<open>j\<close> for \<open>ks\<close>, both joined with ', ' in
  the same order. The two cells split into the same number of entries when none of these
  display values holds the separator itself.
\<close>

theorem provenance_cells_set_together:
  assumes "prepare_data to_Int64 to_datetime to_uint32 rows = Inr df"
  shows "\<exists>out. analyze_routes df = Inr out
     \<and> (\<forall>i<length df.
          (old_text_route_number (out ! i) = None \<and> changed_field (out ! i) = None
             \<and> old_value_field (out ! i) = None)
        \<or> (\<exists>j<i. \<exists>ks.
              old_text_route_number (out ! i) = Some (text_route_number (df ! j))
            \<and> changed_field (out ! i) = Some (join '', '' (map column_name ks))
            \<and> old_value_field (out ! i) = Some (join '', '' (map (\<lambda>k. old_value_mapping k (df ! j)) ks))
            \<and> ((\<forall>k\<in>set ks. sep_free (old_value_mapping k (df ! j))) \<longrightarrow>
                 length (split_comma (join '', '' (map column_name ks))) =
                 length (split_comma (join '', '' (map (\<lambda>k. old_value_mapping k (df ! j)) ks))))))"
proof -
  let ?out = "map (classify df) [0..<length df]"
  have run: "analyze_routes df = Inr ?out" by (rule analyze_routes_classify)
  have count: "length (split_comma (join '', '' (map column_name ks))) =
      length (split_comma (join '', '' (map f ks)))"
    if "\<forall>k\<in>set ks. sep_free (f k)" for ks :: "key_column list" and f
  proof -
    have "\<forall>x\<in>set (map column_name ks). sep_free x" by (simp add: sep_free_column_name)
    moreover have "\<forall>x\<in>set (map f ks). sep_free x" using that by simp
    ultimately show ?thesis
      using length_split_comma_join [of "map column_name ks"] length_split_comma_join [of "map f ks"]
      by simp
  qed
  have "(old_text_route_number (?out ! i) = None \<and> changed_field (?out ! i) = None
             \<and> old_value_field (?out ! i) = None)
        \<or> (\<exists>j<i. \<exists>ks.
              old_text_route_number (?out ! i) = Some (text_route_number (df ! j))
            \<and> changed_field (?out ! i) = Some (join '', '' (map column_name ks))
            \<and> old_value_field (?out ! i) = Some (join '', '' (map (\<lambda>k. old_value_mapping k (df ! j)) ks))
            \<and> ((\<forall>k\<in>set ks. sep_free (old_value_mapping k (df ! j))) \<longrightarrow>
                 length (split_comma (join '', '' (map column_name ks))) =
                 length (split_comma (join '', '' (map (\<lambda>k. old_value_mapping k (df ! j)) ks)))))"
    if i: "i < length df" for i
  proof -
    have oi: "?out ! i = classify df i" using i by simp
    have fresh: "old_text_route_number (df ! i) = None" "changed_field (df ! i) = None"
      "old_value_field (df ! i) = None"
      using prepare_data_fresh [OF assms i] by simp_all
    show ?thesis
    proof (cases "0 < i")
      case False
      then have "classify df i = df ! i" by (simp add: classify_first)
      then show ?thesis using oi fresh by simp
    next
      case True
      from classify_fresh_cases [OF True i fresh(1)] show ?thesis
      proof
        assume "(\<forall>j<i. \<not> candidate (df ! i) (df ! j)) \<and> classify df i = df ! i"
        then show ?thesis using oi fresh by simp
      next
        assume "\<exists>j<i. candidate (df ! i) (df ! j)
          \<and> (\<forall>k. j < k \<and> k < i \<longrightarrow> \<not> candidate (df ! i) (df ! k))
          \<and> old_text_route_number (classify df i) = Some (text_route_number (df ! j))
          \<and> changed_field (classify df i) =
               Some (join '', '' (map column_name (differing (df ! i) (df ! j))))
          \<and> old_value_field (classify df i) =
               Some (join '', '' (map (\<lambda>k. old_value_mapping k (df ! j)) (differing (df ! i) (df ! j))))"
        then obtain j where j: "j < i"
          "old_text_route_number (classify df i) = Some (text_route_number (df ! j))"
          "changed_field (classify df i) =
               Some (join '', '' (map column_name (differing (df ! i) (df ! j))))"
          "old_value_field (classify df i) =
               Some (join '', '' (map (\<lambda>k. old_value_mapping k (df ! j)) (differing (df ! i) (df ! j))))"
          by blast
        have "\<exists>j<i. \<exists>ks.
              old_text_route_number (?out ! i) = Some (text_route_number (df ! j))
            \<and> changed_field (?out ! i) = Some (join '', '' (map column_name ks))
            \<and> old_value_field (?out ! i) = Some (join '', '' (map (\<lambda>k. old_value_mapping k (df ! j)) ks))
            \<and> ((\<forall>k\<in>set ks. sep_free (old_value_mapping k (df ! j))) \<longrightarrow>
                 length (split_comma (join '', '' (map column_name ks))) =
                 length (split_comma (join '', '' (map (\<lambda>k. old_value_mapping k (df ! j)) ks))))"
          using j count [of "differing (df ! i) (df ! j)" "\<lambda>k. old_value_mapping k (df ! j)"]
          by (intro exI [of _ j] exI [of _ "differing (df ! i) (df ! j)"] conjI impI)
             (simp_all only: oi)
        then show ?thesis by (rule disjI2)
      qed
    qed
  qed
  then show ?thesis using run by blast
qed

theorem provenance_cells_set_together_witness:
  "prepare_data decimal_Int64 iso_date decimal_uint32 example_rows = Inr example_df
   \<and> 2 < length example_df
   \<and> (\<exists>out. analyze_routes example_df = Inr out
        \<and> (\<exists>j<2. \<exists>ks.
              old_text_route_number (out ! 2) = Some (text_route_number (example_df ! j))
            \<and> changed_field (out ! 2) = Some (join '', '' (map column_name ks))
            \<and> old_value_field (out ! 2) =
                Some (join '', '' (map (\<lambda>k. old_value_mapping k (example_df ! j)) ks))))"
proof -
  have len: "2 < length example_df" by (simp add: example_df_def)
  have set: "old_text_route_number (example_out ! 2) \<noteq> None" by (simp add: example_out_def)
  from provenance_cells_set_together [OF prepare_example] obtain out where
    run: "analyze_routes example_df = Inr out"
    and all: "\<forall>i<length example_df.
          (old_text_route_number (out ! i) = None \<and> changed_field (out ! i) = None
             \<and> old_value_field (out ! i) = None)
        \<or> (\<exists>j<i. \<exists>ks.
              old_text_route_number (out ! i) = Some (text_route_number (example_df ! j))
            \<and> changed_field (out ! i) = Some (join '', '' (map column_name ks))
            \<and> old_value_field (out ! i) = Some (join '', '' (map (\<lambda>k. old_value_mapping k (example_df ! j)) ks))
            \<and> ((\<forall>k\<in>set ks. sep_free (old_value_mapping k (example_df ! j))) \<longrightarrow>
                 length (split_comma (join '', '' (map column_name ks))) =
                 length (split_comma (join '', '' (map (\<lambda>k. old_value_mapping k (example_df ! j)) ks)))))"
    by blast
  have out: "out = example_out" using run analyze_example by simp
  have "\<exists>j<2. \<exists>ks.
              old_text_route_number (out ! 2) = Some (text_route_number (example_df ! j))
            \<and> changed_field (out ! 2) = Some (join '', '' (map column_name ks))
            \<and> old_value_field (out ! 2) =
                Some (join '', '' (map (\<lambda>k. old_value_mapping k (example_df ! j)) ks))"
  proof -
    have nn: "old_text_route_number (out ! 2) \<noteq> None" using set out by simp
    from all [rule_format, OF len] nn show ?thesis by blast
  qed
  then show ?thesis using prepare_example len run by blast
qed

theorem entry_count_counterexample:
  "prepare_data decimal_Int64 iso_date decimal_uint32 comma_rows = Inr comma_df
   \<and> analyze_routes comma_df = Inr comma_out
   \<and> changed_field (comma_out ! 1) = Some ''payer_of_the_railway_tariff_unified''
   \<and> old_value_field (comma_out ! 1) = Some ''Smith, Sons''
   \<and> length (split_comma ''payer_of_the_railway_tariff_unified'') = 1
   \<and> length (split_comma ''Smith, Sons'') = 2"
  using prepare_comma analyze_comma by (simp add: comma_out_def)

text \<open>
  C9. Whatever \<open>to_csv\<close> and \<open>insert_df\<close> do, \<open>insert_data\<close> calls \<open>to_csv\<close> first and
  \<open>insert_df\<close> after it, once each; how the call ends depends on \<open>insert_df\<close> alone;
  and when \<open>to_csv\<close> raises, an error is logged in place of the success line and the
  rest of the call is the same.
\<close>

theorem audit_export_before_insert:
  "(\<exists>pre post. fst (insert_data to_csv insert_df) = pre @ To_csv # post
        \<and> To_csv \<notin> set pre \<and> Insert_df \<notin> set pre
        \<and> Insert_df \<in> set post \<and> To_csv \<notin> set post)
   \<and> snd (insert_data to_csv insert_df) = snd (insert_data Returns insert_df)
   \<and> fst (insert_data Raises insert_df) =
       [Logger_info, To_csv, Logger_error] @ drop 3 (fst (insert_data Returns insert_df))
   \<and> snd (insert_data to_csv Returns) = Return
   \<and> snd (insert_data to_csv Raises) = Sys_exit 1"
proof -
  have "fst (insert_data to_csv insert_df) = [Logger_info] @ To_csv # tl (save_to_file to_csv) @
      [Insert_df, if insert_df = Returns then Logger_info else Logger_error]"
    by (cases to_csv; cases insert_df) (simp_all add: insert_data_def save_to_file_def)
  moreover have "To_csv \<notin> set (tl (save_to_file to_csv))" "Insert_df \<notin> set (tl (save_to_file to_csv))"
    by (cases to_csv; simp add: save_to_file_def)+
  ultimately have "\<exists>pre post. fst (insert_data to_csv insert_df) = pre @ To_csv # post
        \<and> To_csv \<notin> set pre \<and> Insert_df \<notin> set pre
        \<and> Insert_df \<in> set post \<and> To_csv \<notin> set post"
    by (intro exI [of _ "[Logger_info]"]
        exI [of _ "tl (save_to_file to_csv) @ [Insert_df, if insert_df = Returns then Logger_info else Logger_error]"])
      simp
  moreover have "snd (insert_data to_csv insert_df) = snd (insert_data Returns insert_df)"
    by (cases insert_df) (simp_all add: insert_data_def)
  moreover have "fst (insert_data Raises insert_df) =
       [Logger_info, To_csv, Logger_error] @ drop 3 (fst (insert_data Returns insert_df))"
    by (cases insert_df) (simp_all add: insert_data_def save_to_file_def)
  moreover have "snd (insert_data to_csv Returns) = Return" "snd (insert_data to_csv Raises) = Sys_exit 1"
    by (simp_all add: insert_data_def)
  ultimately show ?thesis by blast
qed

theorem audit_export_before_insert_witness:
  "fst (insert_data Raises Returns) = [Logger_info, To_csv, Logger_error, Insert_df, Logger_info]
   \<and> snd (insert_data Raises Returns) = Return
   \<and> (\<exists>pre post. fst (insert_data Raises Returns) = pre @ To_csv # post
        \<and> To_csv \<notin> set pre \<and> Insert_df \<notin> set pre
        \<and> Insert_df \<in> set post \<and> To_csv \<notin> set post)"
proof -
  have "fst (insert_data Raises Returns) = [Logger_info, To_csv, Logger_error, Insert_df, Logger_info]"
    by (simp add: insert_data_def save_to_file_def)
  then show ?thesis using audit_export_before_insert [of Raises Returns] by blast
qed





lemma prepare_undated: "prepare_data decimal_Int64 iso_date decimal_uint32 undated_rows = Inr undated_df"
  by (simp add: prepare_data_def undated_rows_def undated_df_def example_route_def
      with_cells_def example_dates example_numbers example_counter sort_column_def)

lemma analyze_undated: "analyze_routes undated_df = Inr undated_out"
  by (simp add: undated_df_def undated_out_def example_route_def classifier_defs)

lemma date_rank_le_Some:
  "date_rank a \<le> date_rank (Some d) \<Longrightarrow> \<exists>e. a = Some e \<and> e \<le> d"
  by (cases a) simp_all

lemma date_rank_None_le: "date_rank None \<le> date_rank b \<Longrightarrow> b = None"
  by (cases b) simp_all

lemma prepare_data_order:
  assumes "prepare_data I P U rows = Inr df" and "j < i" and "i < length df"
  shows "date_rank (route_min_date (df ! j)) \<le> date_rank (route_min_date (df ! i))"
proof -
  have "sorted (map (\<lambda>r. date_rank (route_min_date r)) df)"
    by (rule prepare_data_sorted [OF assms(1)])
  then have "map (\<lambda>r. date_rank (route_min_date r)) df ! j \<le> map (\<lambda>r. date_rank (route_min_date r)) df ! i"
    using assms(2,3) by (intro sorted_nth_mono) simp_all
  then show ?thesis using assms(2,3) by simp
qed

lemma prepare_data_distinct:
  assumes "prepare_data I P U rows = Inr df" and "distinct (map text_route_number rows)"
  shows "distinct (map text_route_number df)"
proof -
  have "mset (map fst (map (\<lambda>r. (text_route_number r, route_min_date r)) df)) =
      mset (map fst (map (\<lambda>r. (text_route_number r, P (route_min_date r))) rows))"
    using prepare_data_mset [OF assms(1)] by (simp only: mset_map)
  moreover have "map fst (map (\<lambda>r. (text_route_number r, route_min_date r)) df) = map text_route_number df"
    by (simp add: comp_def)
  moreover have "map fst (map (\<lambda>r. (text_route_number r, P (route_min_date r))) rows) = map text_route_number rows"
    by (simp add: comp_def)
  ultimately have "mset (map text_route_number df) = mset (map text_route_number rows)"
    by metis
  then show ?thesis using assms(2) mset_eq_imp_distinct_iff by blast
qed

text \<open>
  C4, as the code has it. In the result for a prepared frame, an old_text_route_number
  that is set is the route number of an earlier row \<open>j\<close> whose date cell does not
  compare equal to that of the row; when the row has a date, row \<open>j\<close> has one too and it
  is strictly earlier. So, with distinct route numbers, no row names a row of its own
  date as its predecessor. Rows without a date (NaT) are not covered: NaT compares
  unequal to everything, also to NaT.
\<close>

theorem predecessor_date_is_earlier:
  assumes "prepare_data to_Int64 to_datetime to_uint32 rows = Inr df"
  shows "\<exists>out. analyze_routes df = Inr out \<and> length out = length df
     \<and> (\<forall>i<length df. \<forall>p. old_text_route_number (out ! i) = Some p \<longrightarrow>
          (\<exists>j<i. p = text_route_number (out ! j)
             \<and> \<not> date_eq (route_min_date (out ! i)) (route_min_date (out ! j))
             \<and> (\<forall>d. route_min_date (out ! i) = Some d \<longrightarrow>
                  (\<exists>e. route_min_date (out ! j) = Some e \<and> e < d))))
     \<and> (distinct (map text_route_number rows) \<longrightarrow>
          (\<forall>i<length df. \<forall>k<length df. \<forall>d.
             route_min_date (out ! i) = Some d \<and> route_min_date (out ! k) = Some d \<longrightarrow>
             old_text_route_number (out ! i) \<noteq> Some (text_route_number (out ! k))))"
proof -
  let ?out = "map (classify df) [0..<length df]"
  have run: "analyze_routes df = Inr ?out" by (rule analyze_routes_classify)
  have nth: "?out ! i = classify df i" if "i < length df" for i using that by simp
  have link: "\<exists>j<i. p = text_route_number (?out ! j)
             \<and> \<not> date_eq (route_min_date (?out ! i)) (route_min_date (?out ! j))
             \<and> (\<forall>d. route_min_date (?out ! i) = Some d \<longrightarrow>
                  (\<exists>e. route_min_date (?out ! j) = Some e \<and> e < d))"
    if i: "i < length df" and p: "old_text_route_number (?out ! i) = Some p" for i p
  proof -
    have fresh: "old_text_route_number (df ! i) = None"
      by (rule prepare_data_fresh(2) [OF assms i])
    have pos: "0 < i"
    proof (rule ccontr)
      assume "\<not> 0 < i"
      then have "classify df i = df ! i" by (simp add: classify_first)
      then show False using p nth [OF i] fresh by simp
    qed
    from classify_fresh_cases [OF pos i fresh] p nth [OF i] fresh
    obtain j where j: "j < i" "candidate (df ! i) (df ! j)"
      "old_text_route_number (classify df i) = Some (text_route_number (df ! j))"
      by auto
    have jl: "j < length df" using j(1) i by simp
    have ne: "\<not> date_eq (route_min_date (df ! i)) (route_min_date (df ! j))"
      using j(2) by (simp add: candidate_def)
    have earlier: "\<exists>e. route_min_date (df ! j) = Some e \<and> e < d"
      if d: "route_min_date (df ! i) = Some d" for d
    proof -
      have "date_rank (route_min_date (df ! j)) \<le> date_rank (Some d)"
        using prepare_data_order [OF assms j(1) i] d by simp
      from date_rank_le_Some [OF this] obtain e where e: "route_min_date (df ! j) = Some e" "e \<le> d"
        by blast
      have "e \<noteq> d" using ne d e by auto
      then show ?thesis using e by simp
    qed
    have "p = text_route_number (?out ! j)"
      using j(3) p nth [OF i] nth [OF jl] by (simp add: classify_inputs)
    moreover have "\<not> date_eq (route_min_date (?out ! i)) (route_min_date (?out ! j))"
      using ne nth [OF i] nth [OF jl] by (simp add: classify_inputs)
    moreover have "\<forall>d. route_min_date (?out ! i) = Some d \<longrightarrow>
                  (\<exists>e. route_min_date (?out ! j) = Some e \<and> e < d)"
      using earlier nth [OF i] nth [OF jl] by (simp add: classify_inputs)
    ultimately show ?thesis using j(1) by blast
  qed
  have same_day: "old_text_route_number (?out ! i) \<noteq> Some (text_route_number (?out ! k))"
    if dist: "distinct (map text_route_number rows)" and i: "i < length df" and k: "k < length df"
      and d: "route_min_date (?out ! i) = Some d" "route_min_date (?out ! k) = Some d" for i k d
  proof
    assume "old_text_route_number (?out ! i) = Some (text_route_number (?out ! k))"
    from link [OF i this] obtain j where j: "j < i"
      "text_route_number (?out ! k) = text_route_number (?out ! j)"
      "\<forall>d. route_min_date (?out ! i) = Some d \<longrightarrow>
                  (\<exists>e. route_min_date (?out ! j) = Some e \<and> e < d)"
      by blast
    have jl: "j < length df" using j(1) i by simp
    have dd: "distinct (map text_route_number df)"
      by (rule prepare_data_distinct [OF assms dist])
    have eq: "map text_route_number df ! k = map text_route_number df ! j"
      using j(2) k jl by (simp add: classify_inputs)
    have "(map text_route_number df ! k = map text_route_number df ! j) = (k = j)"
      using k jl by (intro nth_eq_iff_index_eq [OF dd]) simp_all
    then have "k = j" using eq by blast
    then show False using j(3) d by auto
  qed
  have 3: "\<forall>i<length df. \<forall>p. old_text_route_number (?out ! i) = Some p \<longrightarrow>
          (\<exists>j<i. p = text_route_number (?out ! j)
             \<and> \<not> date_eq (route_min_date (?out ! i)) (route_min_date (?out ! j))
             \<and> (\<forall>d. route_min_date (?out ! i) = Some d \<longrightarrow>
                  (\<exists>e. route_min_date (?out ! j) = Some e \<and> e < d)))"
    using link by blast
  have 4: "distinct (map text_route_number rows) \<longrightarrow>
          (\<forall>i<length df. \<forall>k<length df. \<forall>d.
             route_min_date (?out ! i) = Some d \<and> route_min_date (?out ! k) = Some d \<longrightarrow>
             old_text_route_number (?out ! i) \<noteq> Some (text_route_number (?out ! k)))"
    using same_day by blast
  have 2: "length ?out = length df" by simp
  show ?thesis using run 2 3 4 by (intro exI [of _ ?out] conjI)
qed

theorem predecessor_date_is_earlier_witness:
  "prepare_data decimal_Int64 iso_date decimal_uint32 example_rows = Inr example_df
   \<and> distinct (map text_route_number example_rows) \<and> 2 < length example_df
   \<and> (\<exists>out. analyze_routes example_df = Inr out
        \<and> old_text_route_number (out ! 2) = Some (route_prefix @ ''2'')
        \<and> route_min_date (out ! 2) = Some 19783
        \<and> (\<exists>j<2. route_prefix @ ''2'' = text_route_number (out ! j)
              \<and> (\<exists>e. route_min_date (out ! j) = Some e \<and> e < 19783))
        \<and> old_text_route_number (out ! 2) \<noteq> Some (text_route_number (out ! 2)))"
proof -
  have dist: "distinct (map text_route_number example_rows)"
    by (simp add: example_rows_def example_route_def)
  have len: "2 < length example_df" by (simp add: example_df_def)
  have old: "old_text_route_number (example_out ! 2) = Some (route_prefix @ ''2'')"
    and date: "route_min_date (example_out ! 2) = Some 19783"
    by (simp_all add: example_out_def example_route_def)
  from predecessor_date_is_earlier [OF prepare_example] obtain out where
    run: "analyze_routes example_df = Inr out"
    and link: "\<forall>i<length example_df. \<forall>p. old_text_route_number (out ! i) = Some p \<longrightarrow>
          (\<exists>j<i. p = text_route_number (out ! j)
             \<and> \<not> date_eq (route_min_date (out ! i)) (route_min_date (out ! j))
             \<and> (\<forall>d. route_min_date (out ! i) = Some d \<longrightarrow>
                  (\<exists>e. route_min_date (out ! j) = Some e \<and> e < d)))"
    and same: "distinct (map text_route_number example_rows) \<longrightarrow>
          (\<forall>i<length example_df. \<forall>k<length example_df. \<forall>d.
             route_min_date (out ! i) = Some d \<and> route_min_date (out ! k) = Some d \<longrightarrow>
             old_text_route_number (out ! i) \<noteq> Some (text_route_number (out ! k)))"
    by blast
  have out: "out = example_out" using run analyze_example by simp
  have o2: "old_text_route_number (out ! 2) = Some (route_prefix @ ''2'')"
    and d2: "route_min_date (out ! 2) = Some 19783"
    using old date out by simp_all
  from link [rule_format, OF len o2] d2
  have 1: "\<exists>j<2. route_prefix @ ''2'' = text_route_number (out ! j)
              \<and> (\<exists>e. route_min_date (out ! j) = Some e \<and> e < 19783)"
    by blast
  from same [rule_format, OF dist len len] d2
  have 2: "old_text_route_number (out ! 2) \<noteq> Some (text_route_number (out ! 2))"
    by blast
  show ?thesis using prepare_example dist len run o2 d2 1 2 by blast
qed

theorem undated_predecessor_counterexample:
  "prepare_data decimal_Int64 iso_date decimal_uint32 undated_rows = Inr undated_df
   \<and> analyze_routes undated_df = Inr undated_out
   \<and> route_min_date (undated_out ! 2) = route_min_date (undated_out ! 1)
   \<and> old_text_route_number (undated_out ! 2) = Some (text_route_number (undated_out ! 1))
   \<and> route_min_date (undated_out ! 1) = None
   \<and> route_min_date (undated_out ! 0) = Some 19723
   \<and> old_text_route_number (undated_out ! 1) = Some (text_route_number (undated_out ! 0))"
  using prepare_undated analyze_undated by (simp add: undated_out_def example_route_def)

lemma candidate_undated:
  "route_min_date c = None \<or> route_min_date p = None \<Longrightarrow>
     candidate c p \<longleftrightarrow>
       type_of_transportation c = type_of_transportation p
       \<and> MIN_MATCHING_KEY_THRESHOLD \<le> sum_list (map (matching_values c p) key_columns)"
  by (cases "route_min_date c"; cases "route_min_date p") (simp_all add: candidate_def)

text \<open>
  C5, as the code has it. A date text that cannot be parsed becomes NaT, and the record
  stays in the frame: the result has the route numbers of the fetched rows, each with
  its parsed date. Records without a date come after all dated ones. They are classified
  like any other record: NaT compares unequal to every date cell, so for a record
  without a date, and for a candidate without a date, only the transport type, the
  threshold and the station codes decide.
\<close>

theorem unparsable_date_takes_part:
  assumes "prepare_data to_Int64 to_datetime to_uint32 rows = Inr df"
  shows "\<exists>out. analyze_routes df = Inr out
     \<and> mset (map (\<lambda>r. (text_route_number r, route_min_date r)) out) =
         mset (map (\<lambda>r. (text_route_number r, to_datetime (route_min_date r))) rows)
     \<and> (\<forall>i<length df. \<forall>j<i. route_min_date (out ! j) = None \<longrightarrow> route_min_date (out ! i) = None)
     \<and> (\<forall>i<length df. route_min_date (out ! i) = None \<longrightarrow>
          (category_route (out ! i) = Route_change \<longleftrightarrow>
             (\<exists>j<i. type_of_transportation (df ! i) = type_of_transportation (df ! j)
                  \<and> MIN_MATCHING_KEY_THRESHOLD \<le> sum_list (map (matching_values (df ! i) (df ! j)) key_columns)
                  \<and> same_corridor (df ! i) (df ! j))))
     \<and> (\<forall>i<length df. \<forall>j<i. route_min_date (df ! j) = None \<longrightarrow>
          (candidate (df ! i) (df ! j) \<longleftrightarrow>
             type_of_transportation (df ! i) = type_of_transportation (df ! j)
             \<and> MIN_MATCHING_KEY_THRESHOLD \<le> sum_list (map (matching_values (df ! i) (df ! j)) key_columns)))"
proof -
  let ?out = "map (classify df) [0..<length df]"
  let ?g = "\<lambda>r::prepared_route. (text_route_number r, route_min_date r)"
  have run: "analyze_routes df = Inr ?out" by (rule analyze_routes_classify)
  have nth: "?out ! i = classify df i" if "i < length df" for i using that by simp
  have date: "route_min_date (?out ! i) = route_min_date (df ! i)" if "i < length df" for i
    using nth [OF that] by (simp add: classify_inputs)
  have "map ?g ?out = map ?g df"
    by (intro nth_equalityI) (simp_all add: classify_inputs)
  then have 1: "mset (map ?g ?out) =
      mset (map (\<lambda>r. (text_route_number r, to_datetime (route_min_date r))) rows)"
    using prepare_data_mset [OF assms] by simp
  have 2: "route_min_date (?out ! i) = None"
    if "i < length df" "j < i" "route_min_date (?out ! j) = None" for i j
  proof -
    have "route_min_date (df ! j) = None" using that date [of j] by simp
    then have "date_rank None \<le> date_rank (route_min_date (df ! i))"
      using prepare_data_order [OF assms that(2,1)] by simp
    from date_rank_None_le [OF this] show ?thesis using date [OF that(1)] by simp
  qed
  have 3: "category_route (?out ! i) = Route_change \<longleftrightarrow>
             (\<exists>j<i. type_of_transportation (df ! i) = type_of_transportation (df ! j)
                  \<and> MIN_MATCHING_KEY_THRESHOLD \<le> sum_list (map (matching_values (df ! i) (df ! j)) key_columns)
                  \<and> same_corridor (df ! i) (df ! j))"
    if i: "i < length df" and none: "route_min_date (?out ! i) = None" for i
  proof -
    have dn: "route_min_date (df ! i) = None" using none date [OF i] by simp
    have new: "category_route (df ! i) = New_route" by (rule prepare_data_fresh(1) [OF assms i])
    let ?E = "\<exists>j<i. candidate (df ! i) (df ! j) \<and> same_corridor (df ! i) (df ! j)"
    have ce: "category_route (classify df i) = (if 0 < i \<and> ?E then Route_change else New_route)"
      by (simp only: classify_category [OF i] new)
    have "category_route (classify df i) = Route_change \<longleftrightarrow> 0 < i \<and> ?E"
    proof (cases "0 < i \<and> ?E")
      case True
      then have "category_route (classify df i) = Route_change"
        unfolding ce by (rule if_P)
      then show ?thesis using True by blast
    next
      case False
      then have "category_route (classify df i) = New_route"
        unfolding ce by (rule if_not_P)
      then have "category_route (classify df i) \<noteq> Route_change" by simp
      then show ?thesis using False by blast
    qed
    then have "category_route (?out ! i) = Route_change \<longleftrightarrow> 0 < i \<and> ?E"
      by (simp only: nth [OF i])
    also have "\<dots> \<longleftrightarrow> ?E" by auto
    also have "\<dots> \<longleftrightarrow> (\<exists>j<i. type_of_transportation (df ! i) = type_of_transportation (df ! j)
                  \<and> MIN_MATCHING_KEY_THRESHOLD \<le> sum_list (map (matching_values (df ! i) (df ! j)) key_columns)
                  \<and> same_corridor (df ! i) (df ! j))"
      using candidate_undated [of "df ! i"] dn by simp
    finally show ?thesis .
  qed
  have 4: "candidate (df ! i) (df ! j) \<longleftrightarrow>
             type_of_transportation (df ! i) = type_of_transportation (df ! j)
             \<and> MIN_MATCHING_KEY_THRESHOLD \<le> sum_list (map (matching_values (df ! i) (df ! j)) key_columns)"
    if "route_min_date (df ! j) = None" for i j
    using candidate_undated [of "df ! i" "df ! j"] that by simp
  show ?thesis using run 1 2 3 4 by (intro exI [of _ ?out] conjI allI impI) blast+
qed

theorem unparsable_date_takes_part_witness:
  "prepare_data decimal_Int64 iso_date decimal_uint32 undated_rows = Inr undated_df
   \<and> 1 < length undated_df
   \<and> (\<exists>out. analyze_routes undated_df = Inr out
        \<and> route_min_date (out ! 1) = None
        \<and> (category_route (out ! 1) = Route_change \<longleftrightarrow>
             (\<exists>j<1. type_of_transportation (undated_df ! 1) = type_of_transportation (undated_df ! j)
                  \<and> MIN_MATCHING_KEY_THRESHOLD
                      \<le> sum_list (map (matching_values (undated_df ! 1) (undated_df ! j)) key_columns)
                  \<and> same_corridor (undated_df ! 1) (undated_df ! j))))"
proof -
  have len: "1 < length undated_df" by (simp add: undated_df_def)
  have none: "route_min_date (undated_out ! 1) = None"
    by (simp add: undated_out_def example_route_def)
  from unparsable_date_takes_part [OF prepare_undated] obtain out where
    run: "analyze_routes undated_df = Inr out"
    and cat: "\<forall>i<length undated_df. route_min_date (out ! i) = None \<longrightarrow>
          (category_route (out ! i) = Route_change \<longleftrightarrow>
             (\<exists>j<i. type_of_transportation (undated_df ! i) = type_of_transportation (undated_df ! j)
                  \<and> MIN_MATCHING_KEY_THRESHOLD
                      \<le> sum_list (map (matching_values (undated_df ! i) (undated_df ! j)) key_columns)
                  \<and> same_corridor (undated_df ! i) (undated_df ! j)))"
    by blast
  have out: "out = undated_out" using run analyze_undated by simp
  have n1: "route_min_date (out ! 1) = None" using none out by simp
  from cat [rule_format, OF len n1] show ?thesis
    using prepare_undated len run n1 by blast
qed

theorem unparsable_date_counterexample:
  "iso_date (route_min_date (undated_rows ! 0)) = None
   \<and> prepare_data decimal_Int64 iso_date decimal_uint32 undated_rows = Inr undated_df
   \<and> analyze_routes undated_df = Inr undated_out
   \<and> text_route_number (undated_out ! 1) = text_route_number (undated_rows ! 0)
   \<and> route_min_date (undated_out ! 1) = None
   \<and> category_route (undated_out ! 1) = Route_change
   \<and> old_text_route_number (undated_out ! 2) = Some (text_route_number (undated_out ! 1))"
  using prepare_undated analyze_undated
  by (simp add: undated_out_def undated_rows_def example_route_def example_dates)

end
